theory Spec2Isabelle
  imports Complex_Main "HOL-Library.Word"
begin

section \<open>Poker bankroll analysis: estimation and Monte Carlo simulation\<close>

text \<open>
  A shallow embedding of \<^verbatim>\<open>src/simulate.py\<close> and of
  \<^verbatim>\<open>estimate_mu_sigma_by_stake\<close> from \<^verbatim>\<open>src/estimate.py\<close>.

  Numbers. A NumPy \<^verbatim>\<open>float64\<close> is modelled by the type \<open>fl\<close>. \<open>Fin x\<close> is the finite
  number \<open>x\<close>, \<open>NaN\<close> is the not-a-number value, which the arithmetic propagates and every
  comparison rejects, and \<open>NegZero\<close> is the zero with the sign bit set (\<^verbatim>\<open>-0.0\<close>), which
  compares equal to \<open>Fin 0\<close>. Arithmetic on finite numbers is that of the real numbers: it
  is not rounded to 53 bits and does not overflow, so there are no infinities. The
  statements below are therefore worded so that they do not depend on the last bit of a
  computed value, or say where they do. The sign of a zero is kept where the program
  passes a value on unchanged (an argument, a table cell, \<^verbatim>\<open>np.sqrt(-0.0)\<close>), which is how
  it can reach the only place that looks at it, the check of \<^verbatim>\<open>scale\<close> in
  \<^verbatim>\<open>np.random.normal\<close>; a zero that an arithmetic operation computes is written \<open>Fin 0\<close>
  whatever its sign. A two-dimensional array is the list of its rows.
\<close>

subsection \<open>Floating-point values and NumPy primitives\<close>

datatype fl = Fin real | NegZero | NaN

datatype error = ValueError | KeyError string | IndexError

text \<open>The number a float stands for, if it is one.\<close>

fun fl_val :: "fl \<Rightarrow> real option" where
  "fl_val (Fin x) = Some x"
| "fl_val NegZero = Some 0"
| "fl_val NaN = None"

definition fl_add :: "fl \<Rightarrow> fl \<Rightarrow> fl" where
  "fl_add a b = (case (fl_val a, fl_val b) of (Some x, Some y) \<Rightarrow> Fin (x + y) | _ \<Rightarrow> NaN)"

definition fl_sub :: "fl \<Rightarrow> fl \<Rightarrow> fl" where
  "fl_sub a b = (case (fl_val a, fl_val b) of (Some x, Some y) \<Rightarrow> Fin (x - y) | _ \<Rightarrow> NaN)"

definition fl_mul :: "fl \<Rightarrow> fl \<Rightarrow> fl" where
  "fl_mul a b = (case (fl_val a, fl_val b) of (Some x, Some y) \<Rightarrow> Fin (x * y) | _ \<Rightarrow> NaN)"

text \<open>Comparisons with \<open>NaN\<close> are false; the two zeros compare equal.\<close>

definition fl_le :: "fl \<Rightarrow> fl \<Rightarrow> bool" where
  "fl_le a b = (case (fl_val a, fl_val b) of (Some x, Some y) \<Rightarrow> x \<le> y | _ \<Rightarrow> False)"

definition fl_ge :: "fl \<Rightarrow> fl \<Rightarrow> bool" where
  "fl_ge a b = fl_le b a"

definition fl_eq :: "fl \<Rightarrow> fl \<Rightarrow> bool" where
  "fl_eq a b = (case (fl_val a, fl_val b) of (Some x, Some y) \<Rightarrow> x = y | _ \<Rightarrow> False)"

text \<open>\<^verbatim>\<open>np.signbit\<close> on a value that is not \<open>NaN\<close>: true of the negative numbers and of
  \<^verbatim>\<open>-0.0\<close>.\<close>

fun fl_signbit :: "fl \<Rightarrow> bool" where
  "fl_signbit (Fin x) = (x < 0)"
| "fl_signbit NegZero = True"
| "fl_signbit NaN = False"

text \<open>\<^verbatim>\<open>np.maximum\<close> and \<^verbatim>\<open>np.minimum\<close> propagate \<open>NaN\<close>; so do the reductions
  \<^verbatim>\<open>np.max\<close> and \<^verbatim>\<open>np.min\<close> built on them.\<close>

definition np_maximum :: "fl \<Rightarrow> fl \<Rightarrow> fl" where
  "np_maximum a b = (case (fl_val a, fl_val b) of (Some x, Some y) \<Rightarrow> Fin (max x y) | _ \<Rightarrow> NaN)"

definition np_minimum :: "fl \<Rightarrow> fl \<Rightarrow> fl" where
  "np_minimum a b = (case (fl_val a, fl_val b) of (Some x, Some y) \<Rightarrow> Fin (min x y) | _ \<Rightarrow> NaN)"

text \<open>\<^verbatim>\<open>np.sqrt\<close>: the square root of a negative number is \<open>NaN\<close> (with a warning), and
  the square root of \<^verbatim>\<open>-0.0\<close> is \<^verbatim>\<open>-0.0\<close>.\<close>

fun np_sqrt :: "fl \<Rightarrow> fl" where
  "np_sqrt (Fin x) = (if x < 0 then NaN else Fin (sqrt x))"
| "np_sqrt NegZero = NegZero"
| "np_sqrt NaN = NaN"

text \<open>
  True division of a count by a length, as in \<^verbatim>\<open>ruin_count / len(bankroll_paths)\<close>.
  The count never exceeds the length, so a zero length means \<^verbatim>\<open>0 / 0\<close>, which NumPy
  evaluates to \<open>nan\<close> (with a warning) rather than raising.
\<close>

definition np_true_divide :: "nat \<Rightarrow> nat \<Rightarrow> fl" where
  "np_true_divide c n = (if n = 0 then NaN else Fin (real c / real n))"

text \<open>\<^verbatim>\<open>ufunc.accumulate\<close> along a row: \<^verbatim>\<open>np.cumsum\<close> and
  \<^verbatim>\<open>np.maximum.accumulate\<close>. The first entry is passed on unchanged.\<close>

fun accumulate_from :: "('a \<Rightarrow> 'a \<Rightarrow> 'a) \<Rightarrow> 'a \<Rightarrow> 'a list \<Rightarrow> 'a list" where
  "accumulate_from f acc [] = []"
| "accumulate_from f acc (x # xs) = f acc x # accumulate_from f (f acc x) xs"

fun accumulate :: "('a \<Rightarrow> 'a \<Rightarrow> 'a) \<Rightarrow> 'a list \<Rightarrow> 'a list" where
  "accumulate f [] = []"
| "accumulate f (x # xs) = x # accumulate_from f x xs"

definition np_cumsum :: "fl list \<Rightarrow> fl list" where
  "np_cumsum = accumulate fl_add"

definition np_maximum_accumulate :: "fl list \<Rightarrow> fl list" where
  "np_maximum_accumulate = accumulate np_maximum"

text \<open>A reduction over an empty axis has no identity: \<^verbatim>\<open>np.min\<close> and \<^verbatim>\<open>np.max\<close>
  raise \<^verbatim>\<open>ValueError\<close>.\<close>

fun np_reduce :: "(fl \<Rightarrow> fl \<Rightarrow> fl) \<Rightarrow> fl list \<Rightarrow> error + fl" where
  "np_reduce f [] = Inl ValueError"
| "np_reduce f (x # xs) = Inr (foldl f x xs)"

fun collect :: "(error + 'a) list \<Rightarrow> error + 'a list" where
  "collect [] = Inr []"
| "collect (Inl e # rs) = Inl e"
| "collect (Inr v # rs) = (case collect rs of Inl e \<Rightarrow> Inl e | Inr vs \<Rightarrow> Inr (v # vs))"

definition np_min_axis1 :: "fl list list \<Rightarrow> error + fl list" where
  "np_min_axis1 a = collect (map (np_reduce np_minimum) a)"

definition np_max_axis1 :: "fl list list \<Rightarrow> error + fl list" where
  "np_max_axis1 a = collect (map (np_reduce np_maximum) a)"

text \<open>\<^verbatim>\<open>np.sum\<close> of a boolean array counts its true entries.\<close>

definition count_true :: "('a \<Rightarrow> bool) \<Rightarrow> 'a list \<Rightarrow> nat" where
  "count_true P xs = length (filter P xs)"

subsection \<open>The global random-number generator\<close>

text \<open>
  NumPy's legacy generator is global mutable state. It is threaded explicitly: \<open>'g\<close> is
  the type of generator states, \<open>rng_seed\<close> is \<^verbatim>\<open>np.random.seed\<close> (the state a seed
  installs) and \<open>rng_gauss\<close> draws one standard normal variate and advances the state.
  Both are parameters: every result below holds for every generator.
  \<^verbatim>\<open>np.random.normal(loc, scale, (n, m))\<close> fills the array in row-major order with
  \<^verbatim>\<open>loc + scale * gauss()\<close>. It raises \<^verbatim>\<open>ValueError\<close> when \<^verbatim>\<open>scale\<close> is not \<open>NaN\<close> and has
  its sign bit set (a negative scale, and also \<^verbatim>\<open>-0.0\<close>), and for a negative dimension;
  it accepts a \<open>NaN\<close> scale.
\<close>

record 'g rng =
  rng_seed :: "nat \<Rightarrow> 'g"
  rng_gauss :: "'g \<Rightarrow> real \<times> 'g"

fun draw_row :: "'g rng \<Rightarrow> fl \<Rightarrow> fl \<Rightarrow> nat \<Rightarrow> 'g \<Rightarrow> fl list \<times> 'g" where
  "draw_row G loc scale 0 g = ([], g)"
| "draw_row G loc scale (Suc m) g =
     (case rng_gauss G g of (z, g1) \<Rightarrow>
        (case draw_row G loc scale m g1 of (r, g2) \<Rightarrow>
           (fl_add loc (fl_mul scale (Fin z)) # r, g2)))"

fun draw_rows :: "'g rng \<Rightarrow> fl \<Rightarrow> fl \<Rightarrow> nat \<Rightarrow> nat \<Rightarrow> 'g \<Rightarrow> fl list list \<times> 'g" where
  "draw_rows G loc scale 0 m g = ([], g)"
| "draw_rows G loc scale (Suc n) m g =
     (case draw_row G loc scale m g of (r, g1) \<Rightarrow>
        (case draw_rows G loc scale n m g1 of (rs, g2) \<Rightarrow> (r # rs, g2)))"

definition np_random_normal ::
  "'g rng \<Rightarrow> fl \<Rightarrow> fl \<Rightarrow> int \<times> int \<Rightarrow> 'g \<Rightarrow> (error + fl list list) \<times> 'g" where
  "np_random_normal G loc scale shape g =
     (case shape of (n, m) \<Rightarrow>
        if fl_signbit scale \<or> n < 0 \<or> m < 0 then (Inl ValueError, g)
        else (case draw_rows G loc scale (nat n) (nat m) g of (a, g1) \<Rightarrow> (Inr a, g1)))"

subsection \<open>\<^verbatim>\<open>simulate_bankroll_paths\<close>\<close>

text \<open>\<^verbatim>\<open>np.column_stack\<close> of a vector and a matrix with as many rows puts the vector
  in front as column 0.\<close>

definition column_stack :: "fl list \<Rightarrow> fl list list \<Rightarrow> fl list list" where
  "column_stack col a = map2 (#) col a"

definition simulate_bankroll_paths ::
  "'g rng \<Rightarrow> fl \<Rightarrow> fl \<Rightarrow> fl \<Rightarrow> int \<Rightarrow> int \<Rightarrow> 'g \<Rightarrow> (error + fl list list) \<times> 'g" where
  "simulate_bankroll_paths G mu sigma initial_bankroll n_hands n_simulations g =
     (let g0 = rng_seed G 42 in
      case np_random_normal G mu sigma (n_simulations, n_hands) g0 of
        (Inl e, g1) \<Rightarrow> (Inl e, g1)
      | (Inr returns, g1) \<Rightarrow>
          (let cumulative_returns = map np_cumsum returns;
               bankroll_paths =
                 column_stack (replicate (nat n_simulations) initial_bankroll)
                   (map (map (fl_add initial_bankroll)) cumulative_returns)
           in (Inr bankroll_paths, g1)))"

subsection \<open>\<^verbatim>\<open>calculate_risk_of_ruin\<close>\<close>

definition calculate_risk_of_ruin :: "fl list list \<Rightarrow> real \<Rightarrow> error + fl" where
  "calculate_risk_of_ruin bankroll_paths ruin_threshold =
     (case np_min_axis1 bankroll_paths of
        Inl e \<Rightarrow> Inl e
      | Inr min_bankrolls \<Rightarrow>
          (let ruin_count = count_true (\<lambda>m. fl_le m (Fin ruin_threshold)) min_bankrolls
           in Inr (np_true_divide ruin_count (length bankroll_paths))))"

subsection \<open>\<^verbatim>\<open>calculate_drawdown_probabilities\<close>\<close>

text \<open>A Python \<^verbatim>\<open>dict\<close> is an association list in insertion order; assigning to a
  key that is present replaces its value in place.\<close>

primrec dict_set :: "'k \<Rightarrow> 'v \<Rightarrow> ('k \<times> 'v) list \<Rightarrow> ('k \<times> 'v) list" where
  "dict_set k v [] = [(k, v)]"
| "dict_set k v (p # ps) = (if fst p = k then (k, v) # ps else p # dict_set k v ps)"

definition max_drawdowns :: "fl list list \<Rightarrow> error + fl list" where
  "max_drawdowns bankroll_paths =
     (let running_max = map np_maximum_accumulate bankroll_paths;
          drawdowns = map2 (map2 fl_sub) running_max bankroll_paths
      in np_max_axis1 drawdowns)"

fun drawdown_loop ::
  "fl list list \<Rightarrow> real list \<Rightarrow> (real \<times> fl) list \<Rightarrow> error + (real \<times> fl) list" where
  "drawdown_loop bankroll_paths [] drawdown_probs = Inr drawdown_probs"
| "drawdown_loop bankroll_paths (threshold # rest) drawdown_probs =
     (case max_drawdowns bankroll_paths of
        Inl e \<Rightarrow> Inl e
      | Inr mds \<Rightarrow>
          (let drawdown_count = count_true (\<lambda>d. fl_ge d (Fin threshold)) mds
           in drawdown_loop bankroll_paths rest
                (dict_set threshold
                   (np_true_divide drawdown_count (length bankroll_paths)) drawdown_probs)))"

definition calculate_drawdown_probabilities ::
  "fl list list \<Rightarrow> real list \<Rightarrow> error + (real \<times> fl) list" where
  "calculate_drawdown_probabilities bankroll_paths drawdown_thresholds =
     drawdown_loop bankroll_paths drawdown_thresholds []"

subsection \<open>Terminal statistics\<close>

text \<open>
  Division of two floats where the divisor is a positive count or its square root.
  (\<^verbatim>\<open>x / 0\<close> is \<open>nan\<close> for \<open>x = 0\<close>; for \<open>x \<noteq> 0\<close> NumPy gives an infinity, which
  this model does not represent: no division below has a zero divisor and a non-zero
  dividend.)
\<close>

definition fl_div :: "fl \<Rightarrow> fl \<Rightarrow> fl" where
  "fl_div a b =
     (case (fl_val a, fl_val b) of
        (Some x, Some y) \<Rightarrow> (if y = 0 then NaN else Fin (x / y))
      | _ \<Rightarrow> NaN)"

definition np_sum :: "fl list \<Rightarrow> fl" where
  "np_sum xs = foldl fl_add (Fin 0) xs"

text \<open>\<^verbatim>\<open>np.mean\<close>; of an empty array it is \<open>nan\<close> (with a warning).\<close>

definition np_mean :: "fl list \<Rightarrow> fl" where
  "np_mean xs = fl_div (np_sum xs) (Fin (real (length xs)))"

text \<open>\<^verbatim>\<open>np.std\<close>: the population standard deviation (\<^verbatim>\<open>ddof = 0\<close>).\<close>

definition np_std :: "fl list \<Rightarrow> fl" where
  "np_std xs =
     (let arrmean = np_mean xs;
          x = map (\<lambda>v. fl_sub v arrmean) xs
      in np_sqrt (np_mean (map (\<lambda>d. fl_mul d d) x)))"

fun fins :: "fl list \<Rightarrow> real list option" where
  "fins [] = Some []"
| "fins (Fin x # xs) = map_option ((#) x) (fins xs)"
| "fins (NegZero # xs) = map_option ((#) 0) (fins xs)"
| "fins (NaN # xs) = None"

text \<open>
  \<^verbatim>\<open>np.percentile(a, q)\<close> with the default linear interpolation, for \<open>0 \<le> q \<le> 100\<close>
  (it is called with \<open>q = 10\<close> and \<open>q = 90\<close> only). For an empty array the lookup of the
  order statistics raises \<^verbatim>\<open>IndexError\<close>. A non-empty array holding a \<open>NaN\<close> has
  percentile \<open>nan\<close>.
\<close>

definition np_percentile :: "fl list \<Rightarrow> real \<Rightarrow> error + fl" where
  "np_percentile a q =
     (if a = [] then Inl IndexError
      else (case fins a of
        None \<Rightarrow> Inr NaN
      | Some rs \<Rightarrow>
          (let arr = sort rs;
               n = length arr;
               virtual_index = real (n - 1) * (q / 100);
               previous_index = nat \<lfloor>virtual_index\<rfloor>;
               next_index = min (previous_index + 1) (n - 1);
               gamma = virtual_index - real previous_index
           in Inr (Fin (arr ! previous_index
                        + (arr ! next_index - arr ! previous_index) * gamma)))))"

text \<open>\<^verbatim>\<open>paths[:, -1]\<close>: the last column; \<^verbatim>\<open>IndexError\<close> for an array with no column.\<close>

definition last_column :: "fl list list \<Rightarrow> error + fl list" where
  "last_column a = collect (map (\<lambda>row. if row = [] then Inl IndexError else Inr (last row)) a)"

subsection \<open>\<^verbatim>\<open>run_stake_simulations\<close>\<close>

text \<open>
  The estimates table: one \<open>stake_estimate\<close> per row, with the columns that
  \<^verbatim>\<open>estimate_mu_sigma_by_stake\<close> writes (the column \<^verbatim>\<open>stake_text\<close> is the field
  \<open>est_stake_text\<close>). A missing value in a float column is \<open>NaN\<close>. The column
  \<^verbatim>\<open>total_hands\<close> is the sum of an \<^verbatim>\<open>int64\<close> column, a 64-bit integer that wraps.
\<close>

record stake_estimate =
  est_stake_text :: string
  n_sessions :: nat
  total_hands :: "64 word"
  total_hours :: fl
  avg_session_hours :: fl
  mu_bb_per_hand :: fl
  mu_bb_ci_lower :: fl
  mu_bb_ci_upper :: fl
  mu_usd_per_hand :: fl
  mu_usd_ci_lower :: fl
  mu_usd_ci_upper :: fl
  sigma2_bb_per_hand :: fl
  sigma2_usd_per_hand :: fl
  bb_per_hour :: fl
  hourly_rate_usd :: fl
  total_bb_won :: fl
  total_usd_won :: fl

text \<open>
  The configuration dictionary: a field is \<open>None\<close> when the key is absent, and reading
  an absent key raises \<^verbatim>\<open>KeyError\<close>.
\<close>

record config =
  cfg_n_simulations :: "int option"
  cfg_time_horizons :: "int list option"
  cfg_current_bankroll_bb :: "fl option"
  cfg_drawdown_thresholds :: "real list option"

text \<open>
  A result row is a dictionary. Its keys are the fixed names and the formatted names
  \<^verbatim>\<open>f"ror_{n_hands}h"\<close>, \<^verbatim>\<open>f"final_mean_{n_hands}h"\<close>, \<^verbatim>\<open>f"final_std_{n_hands}h"\<close>,
  \<^verbatim>\<open>f"final_p10_{n_hands}h"\<close>, \<^verbatim>\<open>f"final_p90_{n_hands}h"\<close> and
  \<^verbatim>\<open>f"dd_{dd_threshold}bb_{n_hands}h"\<close>. The returned data frame is the list of rows.
\<close>

datatype key =
    K_stake_text | K_mu | K_sigma | K_sigma2
  | K_ror int | K_final_mean int | K_final_std int | K_final_p10 int | K_final_p90 int
  | K_dd real int

datatype cell = Str string | Num fl

type_synonym result_row = "(key \<times> cell) list"

definition store_drawdowns :: "int \<Rightarrow> (real \<times> fl) list \<Rightarrow> result_row \<Rightarrow> result_row" where
  "store_drawdowns n_hands drawdown_probs stake_results =
     foldl (\<lambda>d (dd_threshold, dd_prob). dict_set (K_dd dd_threshold n_hands) (Num dd_prob) d)
       stake_results drawdown_probs"

text \<open>The body of the loop over the time horizons. The entries are assigned in the
  order of the source; an exception discards the dictionary, so only the order of the
  calls that can raise matters.\<close>

definition run_horizon ::
  "'g rng \<Rightarrow> config \<Rightarrow> fl \<Rightarrow> fl \<Rightarrow> int \<Rightarrow> result_row \<Rightarrow> 'g \<Rightarrow> (error + result_row) \<times> 'g" where
  "run_horizon G cfg mu sigma n_hands stake_results g =
     (case cfg_current_bankroll_bb cfg of
        None \<Rightarrow> (Inl (KeyError ''current_bankroll_bb''), g)
      | Some initial_bankroll \<Rightarrow>
     (case cfg_n_simulations cfg of
        None \<Rightarrow> (Inl (KeyError ''n_simulations''), g)
      | Some n_sims \<Rightarrow>
     (case simulate_bankroll_paths G mu sigma initial_bankroll n_hands n_sims g of
        (Inl e, g1) \<Rightarrow> (Inl e, g1)
      | (Inr paths, g1) \<Rightarrow>
     (case calculate_risk_of_ruin paths 0 of
        Inl e \<Rightarrow> (Inl e, g1)
      | Inr ror \<Rightarrow>
     (case cfg_drawdown_thresholds cfg of
        None \<Rightarrow> (Inl (KeyError ''drawdown_thresholds''), g1)
      | Some thresholds \<Rightarrow>
     (case calculate_drawdown_probabilities paths thresholds of
        Inl e \<Rightarrow> (Inl e, g1)
      | Inr drawdown_probs \<Rightarrow>
     (case last_column paths of
        Inl e \<Rightarrow> (Inl e, g1)
      | Inr final_bankrolls \<Rightarrow>
     (case np_percentile final_bankrolls 10 of
        Inl e \<Rightarrow> (Inl e, g1)
      | Inr final_p10 \<Rightarrow>
     (case np_percentile final_bankrolls 90 of
        Inl e \<Rightarrow> (Inl e, g1)
      | Inr final_p90 \<Rightarrow>
          (Inr (store_drawdowns n_hands drawdown_probs
                  (dict_set (K_final_p90 n_hands) (Num final_p90)
                  (dict_set (K_final_p10 n_hands) (Num final_p10)
                  (dict_set (K_final_std n_hands) (Num (np_std final_bankrolls))
                  (dict_set (K_final_mean n_hands) (Num (np_mean final_bankrolls))
                  (dict_set (K_ror n_hands) (Num ror) stake_results)))))),
           g1))))))))))"

fun horizons_loop ::
  "'g rng \<Rightarrow> config \<Rightarrow> fl \<Rightarrow> fl \<Rightarrow> int list \<Rightarrow> result_row \<Rightarrow> 'g \<Rightarrow> (error + result_row) \<times> 'g" where
  "horizons_loop G cfg mu sigma [] stake_results g = (Inr stake_results, g)"
| "horizons_loop G cfg mu sigma (n_hands # rest) stake_results g =
     (case run_horizon G cfg mu sigma n_hands stake_results g of
        (Inl e, g1) \<Rightarrow> (Inl e, g1)
      | (Inr stake_results', g1) \<Rightarrow> horizons_loop G cfg mu sigma rest stake_results' g1)"

text \<open>The body of the loop over the rows of the estimates table.\<close>

definition run_stake ::
  "'g rng \<Rightarrow> config \<Rightarrow> stake_estimate \<Rightarrow> 'g \<Rightarrow> (error + result_row) \<times> 'g" where
  "run_stake G cfg stake_row g =
     (let stake = est_stake_text stake_row;
          mu = mu_bb_per_hand stake_row;
          sigma = np_sqrt (sigma2_bb_per_hand stake_row);
          stake_results =
            [(K_stake_text, Str stake), (K_mu, Num mu), (K_sigma, Num sigma),
             (K_sigma2, Num (sigma2_bb_per_hand stake_row))]
      in case cfg_time_horizons cfg of
           None \<Rightarrow> (Inl (KeyError ''time_horizons''), g)
         | Some horizons \<Rightarrow> horizons_loop G cfg mu sigma horizons stake_results g)"

fun stakes_loop ::
  "'g rng \<Rightarrow> config \<Rightarrow> stake_estimate list \<Rightarrow> result_row list \<Rightarrow> 'g
     \<Rightarrow> (error + result_row list) \<times> 'g" where
  "stakes_loop G cfg [] simulation_results g = (Inr simulation_results, g)"
| "stakes_loop G cfg (stake_row # rest) simulation_results g =
     (case run_stake G cfg stake_row g of
        (Inl e, g1) \<Rightarrow> (Inl e, g1)
      | (Inr stake_results, g1) \<Rightarrow>
          stakes_loop G cfg rest (simulation_results @ [stake_results]) g1)"

definition run_stake_simulations ::
  "'g rng \<Rightarrow> stake_estimate list \<Rightarrow> config \<Rightarrow> 'g \<Rightarrow> (error + result_row list) \<times> 'g" where
  "run_stake_simulations G estimates_df cfg g = stakes_loop G cfg estimates_df [] g"

text \<open>The horizon whose name is formatted into a key (none for the four fixed keys).\<close>

fun key_horizon :: "key \<Rightarrow> int option" where
  "key_horizon (K_ror h) = Some h"
| "key_horizon (K_final_mean h) = Some h"
| "key_horizon (K_final_std h) = Some h"
| "key_horizon (K_final_p10 h) = Some h"
| "key_horizon (K_final_p90 h) = Some h"
| "key_horizon (K_dd t h) = Some h"
| "key_horizon _ = None"

text \<open>
  What a result row holds for the horizon \<open>n_hands\<close> once the loop body has run for it
  with the parameters \<open>mu\<close> and \<open>sigma\<close>, the bankroll \<open>b\<close>, \<open>n\<close> trials and the thresholds
  \<open>ths\<close>: the risk of ruin, the four terminal statistics and the drawdown probabilities
  of the array that \<open>simulate_bankroll_paths\<close> returns for these arguments.
\<close>

definition horizon_cells ::
  "'g rng \<Rightarrow> fl \<Rightarrow> fl \<Rightarrow> fl \<Rightarrow> int \<Rightarrow> real list \<Rightarrow> int \<Rightarrow> result_row \<Rightarrow> bool" where
  "horizon_cells G mu sigma b n ths n_hands r \<longleftrightarrow>
     (\<exists>g paths ror drawdown_probs final_bankrolls final_p10 final_p90.
        fst (simulate_bankroll_paths G mu sigma b n_hands n g) = Inr paths
      \<and> calculate_risk_of_ruin paths 0 = Inr ror
      \<and> map_of r (K_ror n_hands) = Some (Num ror)
      \<and> last_column paths = Inr final_bankrolls
      \<and> map_of r (K_final_mean n_hands) = Some (Num (np_mean final_bankrolls))
      \<and> map_of r (K_final_std n_hands) = Some (Num (np_std final_bankrolls))
      \<and> np_percentile final_bankrolls 10 = Inr final_p10
      \<and> map_of r (K_final_p10 n_hands) = Some (Num final_p10)
      \<and> np_percentile final_bankrolls 90 = Inr final_p90
      \<and> map_of r (K_final_p90 n_hands) = Some (Num final_p90)
      \<and> calculate_drawdown_probabilities paths ths = Inr drawdown_probs
      \<and> (\<forall>T\<in>set ths. \<exists>p. map_of drawdown_probs T = Some p
                          \<and> map_of r (K_dd T n_hands) = Some (Num p)))"

subsection \<open>\<^verbatim>\<open>estimate_mu_sigma_by_stake\<close>\<close>

text \<open>
  The enriched session table: one \<open>session\<close> per row, with the columns the estimator
  reads. \<^verbatim>\<open>hands_played\<close> is an \<^verbatim>\<open>int64\<close> column; the others are float columns, in which
  a value can be missing (\<open>NaN\<close>): the enrichment step computes
  \<^verbatim>\<open>bb_per_hand = bb_per_session / hands_played\<close> without checking either operand.
  (With no hand played that quotient is \<open>nan\<close> or an infinity; the model has no
  infinities.)
\<close>

record session =
  stake_text :: string
  hands_played :: "64 word"
  hours_played :: fl
  hands_per_hour :: fl
  net_result :: fl
  bb_per_session :: fl
  bb_per_hand :: fl
  usd_per_hand :: fl

text \<open>\<^verbatim>\<open>Series.unique()\<close>: the distinct values in order of first appearance.\<close>

fun pd_unique :: "'a list \<Rightarrow> 'a list" where
  "pd_unique [] = []"
| "pd_unique (x # xs) = x # filter (\<lambda>y. y \<noteq> x) (pd_unique xs)"

text \<open>
  \<^verbatim>\<open>Series.sum()\<close>, \<^verbatim>\<open>Series.mean()\<close>, \<^verbatim>\<open>Series.var()\<close> and \<^verbatim>\<open>Series.std()\<close> (both with
  \<^verbatim>\<open>ddof = 1\<close>) skip missing values (\<^verbatim>\<open>skipna = True\<close>): they are computed from the values
  that are present, and divide by the number of those. The mean of no value and the
  variance of fewer than two values are \<open>nan\<close>.
\<close>

definition pd_values :: "fl list \<Rightarrow> real list" where
  "pd_values xs = List.map_filter fl_val xs"

definition pd_sum :: "fl list \<Rightarrow> fl" where
  "pd_sum xs = Fin (sum_list (pd_values xs))"

definition pd_mean :: "fl list \<Rightarrow> fl" where
  "pd_mean xs =
     (let values = pd_values xs
      in if values = [] then NaN else Fin (sum_list values / real (length values)))"

definition pd_var :: "fl list \<Rightarrow> fl" where
  "pd_var xs =
     (let values = pd_values xs
      in if length values \<le> 1 then NaN
         else (let avg = sum_list values / real (length values)
               in Fin (sum_list (map (\<lambda>x. (avg - x)\<^sup>2) values) / real (length values - 1))))"

definition pd_std :: "fl list \<Rightarrow> fl" where
  "pd_std xs = np_sqrt (pd_var xs)"

text \<open>
  The statistics of one stake group. \<open>t_ppf\<close> is \<^verbatim>\<open>scipy.stats.t.ppf\<close>, the quantile
  function of Student's t distribution (a parameter: its first argument is the
  probability, its second the degrees of freedom). \<^verbatim>\<open>n_sessions\<close> is \<^verbatim>\<open>len(stake_data)\<close>,
  which counts the sessions whether or not their values are present.
\<close>

definition estimate_stake :: "(real \<Rightarrow> nat \<Rightarrow> real) \<Rightarrow> string \<Rightarrow> session list \<Rightarrow> stake_estimate" where
  "estimate_stake t_ppf stake stake_data =
     (let n = length stake_data;
          mu_bb = pd_mean (map bb_per_hand stake_data);
          mu_usd = pd_mean (map usd_per_hand stake_data);
          session_bb_variance = pd_var (map bb_per_hand stake_data);
          session_usd_variance = pd_var (map usd_per_hand stake_data);
          confidence_level = 95 / 100;
          t_critical = Fin (t_ppf ((1 + confidence_level) / 2) (n - 1));
          mu_bb_se = fl_div (pd_std (map bb_per_hand stake_data)) (np_sqrt (Fin (real n)));
          mu_usd_se = fl_div (pd_std (map usd_per_hand stake_data)) (np_sqrt (Fin (real n)))
      in \<lparr> est_stake_text = stake,
           n_sessions = n,
           total_hands = sum_list (map hands_played stake_data),
           total_hours = pd_sum (map hours_played stake_data),
           avg_session_hours = pd_mean (map hours_played stake_data),
           mu_bb_per_hand = mu_bb,
           mu_bb_ci_lower = fl_sub mu_bb (fl_mul t_critical mu_bb_se),
           mu_bb_ci_upper = fl_add mu_bb (fl_mul t_critical mu_bb_se),
           mu_usd_per_hand = mu_usd,
           mu_usd_ci_lower = fl_sub mu_usd (fl_mul t_critical mu_usd_se),
           mu_usd_ci_upper = fl_add mu_usd (fl_mul t_critical mu_usd_se),
           sigma2_bb_per_hand = session_bb_variance,
           sigma2_usd_per_hand = session_usd_variance,
           bb_per_hour = fl_mul mu_bb (pd_mean (map hands_per_hour stake_data)),
           hourly_rate_usd = fl_mul mu_usd (pd_mean (map hands_per_hour stake_data)),
           total_bb_won = pd_sum (map bb_per_session stake_data),
           total_usd_won = pd_sum (map net_result stake_data) \<rparr>)"

fun estimate_loop ::
  "(real \<Rightarrow> nat \<Rightarrow> real) \<Rightarrow> session list \<Rightarrow> string list \<Rightarrow> stake_estimate list
     \<Rightarrow> stake_estimate list" where
  "estimate_loop t_ppf df [] estimates = estimates"
| "estimate_loop t_ppf df (stake # rest) estimates =
     (let stake_data = filter (\<lambda>r. stake_text r = stake) df
      in if length stake_data < 3 then estimate_loop t_ppf df rest estimates
         else estimate_loop t_ppf df rest (estimates @ [estimate_stake t_ppf stake stake_data]))"

definition estimate_mu_sigma_by_stake ::
  "(real \<Rightarrow> nat \<Rightarrow> real) \<Rightarrow> session list \<Rightarrow> stake_estimate list" where
  "estimate_mu_sigma_by_stake t_ppf df = estimate_loop t_ppf df (pd_unique (map stake_text df)) []"

subsection \<open>The estimator's statistics as the specification words them\<close>

text \<open>
  The arithmetic mean and the Bessel-corrected sample variance (denominator \<open>n - 1\<close>) of a
  sample, written as the specification states them; the results below compare the
  estimator's output with them.
\<close>

definition sample_mean :: "real list \<Rightarrow> real" where
  "sample_mean xs = sum_list xs / real (length xs)"

definition sample_variance :: "real list \<Rightarrow> real" where
  "sample_variance xs = (\<Sum>x\<leftarrow>xs. (x - sample_mean xs)\<^sup>2) / (real (length xs) - 1)"

subsection \<open>Example tables\<close>

text \<open>
  An example session table: four sessions at stake 2-5 with the per-hand results 1.0, 1.2,
  0.8, 1.0 of the specification's scenario A, three identical sessions at stake 5-10 and a
  single session at stake 1-2.
\<close>

definition example_sessions :: "session list" where
  "example_sessions =
     [\<lparr>stake_text = ''2-5'', hands_played = 100, hours_played = Fin 4, hands_per_hour = Fin 25,
        net_result = Fin 500, bb_per_session = Fin 100, bb_per_hand = Fin 1,
        usd_per_hand = Fin 5\<rparr>,
      \<lparr>stake_text = ''1-2'', hands_played = 100, hours_played = Fin 4, hands_per_hour = Fin 25,
        net_result = Fin 600, bb_per_session = Fin 300, bb_per_hand = Fin 3,
        usd_per_hand = Fin 6\<rparr>,
      \<lparr>stake_text = ''2-5'', hands_played = 100, hours_played = Fin 4, hands_per_hour = Fin 25,
        net_result = Fin 600, bb_per_session = Fin 120, bb_per_hand = Fin (6 / 5),
        usd_per_hand = Fin 6\<rparr>,
      \<lparr>stake_text = ''5-10'', hands_played = 100, hours_played = Fin 4, hands_per_hour = Fin 25,
        net_result = Fin 2000, bb_per_session = Fin 200, bb_per_hand = Fin 2,
        usd_per_hand = Fin 20\<rparr>,
      \<lparr>stake_text = ''2-5'', hands_played = 100, hours_played = Fin 4, hands_per_hour = Fin 25,
        net_result = Fin 400, bb_per_session = Fin 80, bb_per_hand = Fin (4 / 5),
        usd_per_hand = Fin 4\<rparr>,
      \<lparr>stake_text = ''5-10'', hands_played = 100, hours_played = Fin 4, hands_per_hour = Fin 25,
        net_result = Fin 2000, bb_per_session = Fin 200, bb_per_hand = Fin 2,
        usd_per_hand = Fin 20\<rparr>,
      \<lparr>stake_text = ''2-5'', hands_played = 100, hours_played = Fin 4, hands_per_hour = Fin 25,
        net_result = Fin 500, bb_per_session = Fin 100, bb_per_hand = Fin 1,
        usd_per_hand = Fin 5\<rparr>,
      \<lparr>stake_text = ''5-10'', hands_played = 100, hours_played = Fin 4, hands_per_hour = Fin 25,
        net_result = Fin 2000, bb_per_session = Fin 200, bb_per_hand = Fin 2,
        usd_per_hand = Fin 20\<rparr>]"

text \<open>
  A session table with three sessions at stake 2-5, the second of which has no result
  recorded: its \<^verbatim>\<open>net_result\<close>, and with it \<^verbatim>\<open>bb_per_session\<close>, \<^verbatim>\<open>bb_per_hand\<close> and
  \<^verbatim>\<open>usd_per_hand\<close>, are missing.
\<close>

definition example_sessions_missing :: "session list" where
  "example_sessions_missing =
     [\<lparr>stake_text = ''2-5'', hands_played = 100, hours_played = Fin 4, hands_per_hour = Fin 25,
        net_result = Fin 500, bb_per_session = Fin 100, bb_per_hand = Fin 1,
        usd_per_hand = Fin 5\<rparr>,
      \<lparr>stake_text = ''2-5'', hands_played = 100, hours_played = Fin 4, hands_per_hour = Fin 25,
        net_result = NaN, bb_per_session = NaN, bb_per_hand = NaN,
        usd_per_hand = NaN\<rparr>,
      \<lparr>stake_text = ''2-5'', hands_played = 100, hours_played = Fin 4, hands_per_hour = Fin 25,
        net_result = Fin 1500, bb_per_session = Fin 300, bb_per_hand = Fin 3,
        usd_per_hand = Fin 15\<rparr>]"

text \<open>
  Two example rows of an estimates table: a row for stake 1-2 with numeric parameters, and
  the same row for stake 2-5 with a missing (\<open>NaN\<close>) mean.
\<close>

definition example_estimate :: stake_estimate where
  "example_estimate =
     \<lparr>est_stake_text = ''1-2'', n_sessions = 4, total_hands = 400, total_hours = Fin 16,
      avg_session_hours = Fin 4, mu_bb_per_hand = Fin (1 / 2), mu_bb_ci_lower = Fin 0,
      mu_bb_ci_upper = Fin 1, mu_usd_per_hand = Fin 1, mu_usd_ci_lower = Fin 0,
      mu_usd_ci_upper = Fin 2, sigma2_bb_per_hand = Fin 1, sigma2_usd_per_hand = Fin 4,
      bb_per_hour = Fin 12, hourly_rate_usd = Fin 25, total_bb_won = Fin 200,
      total_usd_won = Fin 400\<rparr>"

definition example_nan_estimate :: stake_estimate where
  "example_nan_estimate =
     example_estimate\<lparr>est_stake_text := ''2-5'', mu_bb_per_hand := NaN\<rparr>"

section \<open>Properties\<close>

subsection \<open>Floating-point primitives\<close>

lemma fl_val_eq_None [simp]: "fl_val x = None \<longleftrightarrow> x = NaN"
  by (cases x) auto

lemma fl_add_simps [simp]:
  "fl_add (Fin x) (Fin y) = Fin (x + y)"
  "fl_add (Fin x) NegZero = Fin x"
  "fl_add NegZero (Fin y) = Fin y"
  "fl_add NegZero NegZero = Fin 0"
  "fl_add NaN b = NaN"
  "fl_add a NaN = NaN"
  by (cases a; simp add: fl_add_def)+

lemma fl_sub_simps [simp]:
  "fl_sub (Fin x) (Fin y) = Fin (x - y)"
  "fl_sub (Fin x) NegZero = Fin x"
  "fl_sub NegZero (Fin y) = Fin (- y)"
  "fl_sub NegZero NegZero = Fin 0"
  "fl_sub NaN b = NaN"
  "fl_sub a NaN = NaN"
  by (cases a; simp add: fl_sub_def)+

lemma fl_mul_simps [simp]:
  "fl_mul (Fin x) (Fin y) = Fin (x * y)"
  "fl_mul (Fin x) NegZero = Fin 0"
  "fl_mul NegZero (Fin y) = Fin 0"
  "fl_mul NegZero NegZero = Fin 0"
  "fl_mul NaN b = NaN"
  "fl_mul a NaN = NaN"
  by (cases a; simp add: fl_mul_def)+

lemma fl_div_simps [simp]:
  "fl_div (Fin x) (Fin y) = (if y = 0 then NaN else Fin (x / y))"
  "fl_div a NegZero = NaN"
  "fl_div NegZero (Fin y) = (if y = 0 then NaN else Fin 0)"
  "fl_div NaN b = NaN"
  "fl_div a NaN = NaN"
  by (cases a; simp add: fl_div_def)+

lemma fl_le_simps [simp]:
  "fl_le (Fin x) (Fin y) = (x \<le> y)"
  "fl_le (Fin x) NegZero = (x \<le> 0)"
  "fl_le NegZero (Fin y) = (0 \<le> y)"
  "fl_le NegZero NegZero = True"
  "fl_le NaN b = False"
  "fl_le a NaN = False"
  by (cases a; simp add: fl_le_def)+

lemma np_maximum_simps [simp]:
  "np_maximum (Fin x) (Fin y) = Fin (max x y)"
  "np_maximum (Fin x) NegZero = Fin (max x 0)"
  "np_maximum NegZero (Fin y) = Fin (max 0 y)"
  "np_maximum NegZero NegZero = Fin 0"
  "np_maximum NaN b = NaN"
  "np_maximum a NaN = NaN"
  by (cases a; simp add: np_maximum_def)+

lemma np_minimum_simps [simp]:
  "np_minimum (Fin x) (Fin y) = Fin (min x y)"
  "np_minimum (Fin x) NegZero = Fin (min x 0)"
  "np_minimum NegZero (Fin y) = Fin (min 0 y)"
  "np_minimum NegZero NegZero = Fin 0"
  "np_minimum NaN b = NaN"
  "np_minimum a NaN = NaN"
  by (cases a; simp add: np_minimum_def)+

lemma fl_add_eq_NaN [simp]: "fl_add a b = NaN \<longleftrightarrow> a = NaN \<or> b = NaN"
  by (cases a; cases b) auto

lemma fl_sub_eq_NaN [simp]: "fl_sub a b = NaN \<longleftrightarrow> a = NaN \<or> b = NaN"
  by (cases a; cases b) auto

lemma np_maximum_eq_NaN [simp]: "np_maximum a b = NaN \<longleftrightarrow> a = NaN \<or> b = NaN"
  by (cases a; cases b) auto

lemma np_minimum_eq_NaN [simp]: "np_minimum a b = NaN \<longleftrightarrow> a = NaN \<or> b = NaN"
  by (cases a; cases b) auto

lemma fl_add_not_NegZero [simp]: "fl_add a b \<noteq> NegZero" "NegZero \<noteq> fl_add a b"
  by (cases a; cases b; simp)+

lemma fl_add_NaN_eq [simp]: "NaN = fl_add a b \<longleftrightarrow> a = NaN \<or> b = NaN"
  by (cases a; cases b) auto

lemma fl_sub_NaN_eq [simp]: "NaN = fl_sub a b \<longleftrightarrow> a = NaN \<or> b = NaN"
  by (cases a; cases b) auto

lemma np_minimum_NaN_eq [simp]: "NaN = np_minimum a b \<longleftrightarrow> a = NaN \<or> b = NaN"
  by (cases a; cases b) auto

lemma np_maximum_NaN_eq [simp]: "NaN = np_maximum a b \<longleftrightarrow> a = NaN \<or> b = NaN"
  by (cases a; cases b) auto

lemma fl_val_np_maximum:
  "a \<noteq> NaN \<Longrightarrow> b \<noteq> NaN \<Longrightarrow>
   fl_val (np_maximum a b) = Some (max (the (fl_val a)) (the (fl_val b)))"
  by (cases a; cases b) auto

lemma fl_val_fl_sub:
  "a \<noteq> NaN \<Longrightarrow> b \<noteq> NaN \<Longrightarrow> fl_val (fl_sub a b) = Some (the (fl_val a) - the (fl_val b))"
  by (cases a; cases b) auto

lemma fl_ge_Fin_iff: "fl_ge x (Fin t) \<longleftrightarrow> (\<exists>v. fl_val x = Some v \<and> t \<le> v)"
  by (cases x) (auto simp: fl_ge_def)

subsection \<open>Reductions along rows\<close>

lemma collect_all_Inr: "collect (map (\<lambda>x. Inr (f x)) xs) = Inr (map f xs)"
  by (induction xs) auto

lemma np_reduce_nonempty: "row \<noteq> [] \<Longrightarrow> np_reduce f row = Inr (foldl f (hd row) (tl row))"
  by (cases row) auto

lemma reduce_axis1:
  "[] \<notin> set a \<Longrightarrow>
   collect (map (np_reduce f) a) = Inr (map (\<lambda>row. foldl f (hd row) (tl row)) a)"
  by (induction a) (auto simp: np_reduce_nonempty)

lemma fl_le_np_minimum:
  "fl_le (np_minimum x y) (Fin t) \<longleftrightarrow>
     x \<noteq> NaN \<and> y \<noteq> NaN \<and> (fl_le x (Fin t) \<or> fl_le y (Fin t))"
  by (cases x; cases y) (auto simp: min_le_iff_disj)

lemma foldl_np_minimum_le:
  "fl_le (foldl np_minimum x xs) (Fin t) \<longleftrightarrow>
     NaN \<notin> set (x # xs) \<and> (\<exists>v\<in>set (x # xs). fl_le v (Fin t))"
proof (induction xs arbitrary: x)
  case Nil
  then show ?case by (cases x) auto
next
  case (Cons y ys)
  show ?case
  proof (cases "x = NaN \<or> y = NaN")
    case True
    then have "np_minimum x y = NaN" by simp
    then show ?thesis using Cons[of NaN] True by auto
  next
    case False
    then have "np_minimum x y \<noteq> NaN" by simp
    then show ?thesis
      using Cons[of "np_minimum x y"] False by (auto simp: fl_le_np_minimum)
  qed
qed

subsection \<open>Risk of ruin\<close>

lemma ror_fraction:
  assumes "bankroll_paths \<noteq> []" and "[] \<notin> set bankroll_paths"
  shows "calculate_risk_of_ruin bankroll_paths 0 =
           Inr (Fin (real (length (filter (\<lambda>row. NaN \<notin> set row \<and> (\<exists>x\<in>set row. fl_le x (Fin 0)))
                                     bankroll_paths))
                     / real (length bankroll_paths)))"
proof -
  let ?P = "\<lambda>row. NaN \<notin> set row \<and> (\<exists>x\<in>set row. fl_le x (Fin 0))"
  have mins: "np_min_axis1 bankroll_paths =
      Inr (map (\<lambda>row. foldl np_minimum (hd row) (tl row)) bankroll_paths)"
    unfolding np_min_axis1_def using assms(2) by (rule reduce_axis1)
  have "filter (\<lambda>row. fl_le (foldl np_minimum (hd row) (tl row)) (Fin 0)) bankroll_paths
      = filter ?P bankroll_paths"
  proof (rule filter_cong[OF refl])
    fix row assume "row \<in> set bankroll_paths"
    then have "row \<noteq> []" using assms(2) by auto
    then have "hd row # tl row = row" by simp
    then show "fl_le (foldl np_minimum (hd row) (tl row)) (Fin 0) = ?P row"
      using foldl_np_minimum_le[of "hd row" "tl row" 0] by simp
  qed
  then have cnt: "count_true (\<lambda>m. fl_le m (Fin 0))
       (map (\<lambda>row. foldl np_minimum (hd row) (tl row)) bankroll_paths)
     = length (filter ?P bankroll_paths)"
    by (simp add: count_true_def filter_map comp_def)
  show ?thesis
    using assms(1) by (simp add: calculate_risk_of_ruin_def mins cnt np_true_divide_def)
qed

text \<open>
  Claim C2. For a non-empty array of bankroll paths (at least one trial, at least one
  entry per path), \<open>calculate_risk_of_ruin\<close> with threshold 0 returns the number of
  trials whose minimum over the whole path, the initial entry included, is at most 0,
  divided by the number of trials, and that value lies between 0 and 1. A path's
  minimum is at most 0 exactly when the path holds no \<open>NaN\<close> and has an entry that
  compares at most 0 (\<^verbatim>\<open>np.min\<close> of a path with a \<open>NaN\<close> is \<open>nan\<close>, which no comparison accepts).
\<close>

theorem calculate_risk_of_ruin_fraction:
  assumes "bankroll_paths \<noteq> []" and "[] \<notin> set bankroll_paths"
  shows "calculate_risk_of_ruin bankroll_paths 0 =
           Inr (Fin (real (length (filter (\<lambda>row. NaN \<notin> set row \<and> (\<exists>x\<in>set row. fl_le x (Fin 0)))
                                     bankroll_paths))
                     / real (length bankroll_paths)))
         \<and> 0 \<le> real (length (filter (\<lambda>row. NaN \<notin> set row \<and> (\<exists>x\<in>set row. fl_le x (Fin 0)))
                                     bankroll_paths))
                     / real (length bankroll_paths)
         \<and> real (length (filter (\<lambda>row. NaN \<notin> set row \<and> (\<exists>x\<in>set row. fl_le x (Fin 0)))
                                     bankroll_paths))
                     / real (length bankroll_paths) \<le> 1"
proof -
  let ?P = "\<lambda>row. NaN \<notin> set row \<and> (\<exists>x\<in>set row. fl_le x (Fin 0))"
  have "length (filter ?P bankroll_paths) \<le> length bankroll_paths" by simp
  moreover have "0 < length bankroll_paths" using assms(1) by simp
  ultimately have "real (length (filter ?P bankroll_paths)) / real (length bankroll_paths) \<le> 1"
    by (simp add: divide_le_eq)
  then show ?thesis using ror_fraction[OF assms] by simp
qed

theorem calculate_risk_of_ruin_fraction_witness:
  "[[Fin 100, Fin (-5)], [Fin 100, Fin 101]] \<noteq> []
   \<and> [] \<notin> set [[Fin 100, Fin (-5)], [Fin 100, Fin 101]]
   \<and> calculate_risk_of_ruin [[Fin 100, Fin (-5)], [Fin 100, Fin 101]] 0 = Inr (Fin (1 / 2))"
  using calculate_risk_of_ruin_fraction [of "[[Fin 100, Fin (-5)], [Fin 100, Fin 101]]"]
  by simp

subsection \<open>Path generation\<close>

lemma fl_add_zero_left: "x \<noteq> NegZero \<Longrightarrow> fl_add (Fin 0) x = x"
  by (cases x) auto

lemma accumulate_from_nth:
  "k < length xs \<Longrightarrow> accumulate_from f acc xs ! k = foldl f acc (take (Suc k) xs)"
proof (induction xs arbitrary: acc k)
  case Nil
  then show ?case by simp
next
  case (Cons x xs)
  then show ?case by (cases k) auto
qed

lemma length_accumulate_from: "length (accumulate_from f acc xs) = length xs"
  by (induction xs arbitrary: acc) auto

lemma length_accumulate: "length (accumulate f xs) = length xs"
  by (cases xs) (auto simp: length_accumulate_from)

lemma accumulate_nth:
  "k < length xs \<Longrightarrow> accumulate f xs ! k = foldl f (hd xs) (take k (tl xs))"
proof (cases xs)
  case Nil
  assume "k < length xs"
  with Nil show ?thesis by simp
next
  case (Cons x ys)
  assume "k < length xs"
  with Cons show ?thesis by (cases k) (auto simp: accumulate_from_nth)
qed

lemma np_cumsum_nth:
  assumes "k < length xs" and "NegZero \<notin> set xs"
  shows "np_cumsum xs ! k = np_sum (take (Suc k) xs)"
proof (cases xs)
  case Nil
  with assms show ?thesis by simp
next
  case (Cons x ys)
  have "np_cumsum xs ! k = foldl fl_add (hd xs) (take k (tl xs))"
    unfolding np_cumsum_def using assms(1) by (rule accumulate_nth)
  moreover have "x \<noteq> NegZero" using assms(2) Cons by auto
  ultimately show ?thesis using Cons
    by (simp add: np_sum_def fl_add_zero_left)
qed

lemma length_np_cumsum: "length (np_cumsum xs) = length xs"
  by (simp add: np_cumsum_def length_accumulate)

lemma draw_row_length: "length (fst (draw_row G loc scale m g)) = m"
  by (induction m arbitrary: g) (simp_all add: case_prod_beta)

lemma draw_rows_length: "length (fst (draw_rows G loc scale n m g)) = n"
  by (induction n arbitrary: g) (simp_all add: case_prod_beta)

lemma draw_row_no_NegZero: "NegZero \<notin> set (fst (draw_row G loc scale m g))"
  by (induction m arbitrary: g) (simp_all add: case_prod_beta)

lemma draw_rows_row:
  "row \<in> set (fst (draw_rows G loc scale n m g)) \<Longrightarrow> \<exists>g'. row = fst (draw_row G loc scale m g')"
proof (induction n arbitrary: g)
  case 0
  then show ?case by simp
next
  case (Suc n)
  then have "row = fst (draw_row G loc scale m g)
      \<or> row \<in> set (fst (draw_rows G loc scale n m (snd (draw_row G loc scale m g))))"
    by (simp add: case_prod_beta)
  then show ?case using Suc.IH by blast
qed

lemma draw_rows_row_length:
  "row \<in> set (fst (draw_rows G loc scale n m g)) \<Longrightarrow> length row = m"
  using draw_rows_row draw_row_length by metis

lemma draw_rows_no_NegZero:
  "row \<in> set (fst (draw_rows G loc scale n m g)) \<Longrightarrow> NegZero \<notin> set row"
  using draw_rows_row draw_row_no_NegZero by metis

lemma np_random_normal_ok:
  assumes "\<not> fl_signbit sigma" and "0 \<le> n" and "0 \<le> m"
  shows "np_random_normal G mu sigma (n, m) g =
           (Inr (fst (draw_rows G mu sigma (nat n) (nat m) g)),
            snd (draw_rows G mu sigma (nat n) (nat m) g))"
  using assms by (simp add: np_random_normal_def split: prod.splits)

lemma simulate_bankroll_paths_ok:
  assumes "\<not> fl_signbit sigma" and "0 \<le> n_sims" and "0 \<le> n_hands"
  shows "simulate_bankroll_paths G mu sigma b n_hands n_sims g =
           (Inr (map (\<lambda>r. b # map (fl_add b) (np_cumsum r))
                   (fst (draw_rows G mu sigma (nat n_sims) (nat n_hands) (rng_seed G 42)))),
            snd (draw_rows G mu sigma (nat n_sims) (nat n_hands) (rng_seed G 42)))"
proof -
  let ?a = "fst (draw_rows G mu sigma (nat n_sims) (nat n_hands) (rng_seed G 42))"
  have len: "length ?a = nat n_sims" by (rule draw_rows_length)
  have "column_stack (replicate (nat n_sims) b) (map (map (fl_add b)) (map np_cumsum ?a))
      = map (\<lambda>r. b # map (fl_add b) (np_cumsum r)) ?a"
    unfolding column_stack_def
    by (rule nth_equalityI) (simp_all add: len)
  then show ?thesis
    using assms by (simp add: simulate_bankroll_paths_def np_random_normal_ok Let_def)
qed

lemma simulate_bankroll_paths_error:
  assumes "fl_signbit sigma \<or> n_sims < 0 \<or> n_hands < 0"
  shows "simulate_bankroll_paths G mu sigma b n_hands n_sims g = (Inl ValueError, rng_seed G 42)"
  using assms by (auto simp: simulate_bankroll_paths_def np_random_normal_def)

text \<open>
  Claim C1. A call of \<open>simulate_bankroll_paths\<close> that NumPy accepts (a scale without the
  sign bit, non-negative counts) returns an array of \<open>n_simulations\<close> rows and
  \<open>n_hands + 1\<close> columns. In every row, entry 0 is the initial bankroll, and entry \<open>t\<close> for
  \<open>1 \<le> t \<le> n_hands\<close> is the initial bankroll plus the sum of the first \<open>t\<close> increments of
  that trial, the increments being the row of the array that
  \<^verbatim>\<open>np.random.normal(mu, sigma, (n_simulations, n_hands))\<close> returns right after the
  generator is seeded with 42. (That these draws are independent and normally
  distributed is NumPy's contract for the generator, which is a parameter here.)
\<close>

theorem simulate_bankroll_paths_shape:
  assumes "\<not> fl_signbit sigma" and "0 \<le> n_sims" and "0 \<le> n_hands"
  shows "\<exists>returns g0 paths g1.
           np_random_normal G mu sigma (n_sims, n_hands) (rng_seed G 42) = (Inr returns, g0)
         \<and> simulate_bankroll_paths G mu sigma b n_hands n_sims g = (Inr paths, g1)
         \<and> length paths = nat n_sims
         \<and> (\<forall>i < nat n_sims.
               length (paths ! i) = nat n_hands + 1
             \<and> paths ! i ! 0 = b
             \<and> (\<forall>t. 1 \<le> t \<and> t \<le> nat n_hands \<longrightarrow>
                    paths ! i ! t = fl_add b (np_sum (take t (returns ! i)))))"
proof -
  let ?a = "fst (draw_rows G mu sigma (nat n_sims) (nat n_hands) (rng_seed G 42))"
  let ?g = "snd (draw_rows G mu sigma (nat n_sims) (nat n_hands) (rng_seed G 42))"
  let ?p = "map (\<lambda>r. b # map (fl_add b) (np_cumsum r)) ?a"
  have len: "length ?a = nat n_sims" by (rule draw_rows_length)
  have mem: "?a ! i \<in> set ?a" if "i < nat n_sims" for i
    using that len by simp
  have rowlen: "length (?a ! i) = nat n_hands" if "i < nat n_sims" for i
    using mem[OF that] by (rule draw_rows_row_length)
  have rownz: "NegZero \<notin> set (?a ! i)" if "i < nat n_sims" for i
    using mem[OF that] by (rule draw_rows_no_NegZero)
  have entries: "length (?p ! i) = nat n_hands + 1 \<and> ?p ! i ! 0 = b
      \<and> (\<forall>t. 1 \<le> t \<and> t \<le> nat n_hands \<longrightarrow> ?p ! i ! t = fl_add b (np_sum (take t (?a ! i))))"
    if i: "i < nat n_sims" for i
  proof -
    have pi: "?p ! i = b # map (fl_add b) (np_cumsum (?a ! i))" using i len by simp
    have steps: "?p ! i ! t = fl_add b (np_sum (take t (?a ! i)))"
      if "1 \<le> t" "t \<le> nat n_hands" for t
    proof -
      from that(1) have "t \<noteq> 0" by simp
      then obtain k where k: "t = Suc k" using not0_implies_Suc by blast
      then have "k < length (?a ! i)" using that(2) rowlen[OF i] by simp
      then show ?thesis
        using rownz[OF i] by (simp add: pi k length_np_cumsum np_cumsum_nth)
    qed
    have "length (?p ! i) = nat n_hands + 1"
      by (simp add: pi length_np_cumsum rowlen[OF i])
    moreover have "?p ! i ! 0 = b" by (simp add: pi)
    ultimately show ?thesis using steps by blast
  qed
  show ?thesis
    apply (rule exI[of _ ?a], rule exI[of _ ?g], rule exI[of _ ?p], rule exI[of _ ?g])
    using assms entries by (simp add: np_random_normal_ok simulate_bankroll_paths_ok len)
qed

theorem simulate_bankroll_paths_shape_witness:
  "\<not> fl_signbit (Fin 2) \<and> (0::int) \<le> 2 \<and> (0::int) \<le> 2
   \<and> simulate_bankroll_paths \<lparr>rng_seed = \<lambda>s. s, rng_gauss = \<lambda>g. (real g, Suc g)\<rparr>
       (Fin 1) (Fin 2) (Fin 100) 2 2 (0::nat)
     = (Inr [[Fin 100, Fin 185, Fin 272], [Fin 100, Fin 189, Fin 280]], 46)"
  using simulate_bankroll_paths_shape
    [of "Fin 2" 2 2 "\<lparr>rng_seed = \<lambda>s. s, rng_gauss = \<lambda>g. (real g, Suc g)\<rparr>" "Fin 1" "Fin 100" "0::nat"]
  by (simp add: simulate_bankroll_paths_def np_random_normal_def column_stack_def np_cumsum_def
      eval_nat_numeral)

subsection \<open>Drawdown probabilities\<close>

lemma map2_map_self: "map2 f (map g xs) xs = map (\<lambda>x. f (g x) x) xs"
  by (induction xs) auto

lemma drawdown_row_nonempty:
  "row \<noteq> [] \<Longrightarrow> map2 fl_sub (np_maximum_accumulate row) row \<noteq> []"
  by (cases row) (auto simp: np_maximum_accumulate_def)

lemma max_drawdowns_ok:
  assumes "[] \<notin> set bankroll_paths"
  shows "max_drawdowns bankroll_paths =
           Inr (map (\<lambda>row. foldl np_maximum (hd (map2 fl_sub (np_maximum_accumulate row) row))
                                (tl (map2 fl_sub (np_maximum_accumulate row) row)))
                  bankroll_paths)"
proof -
  have "[] \<notin> set (map (\<lambda>row. map2 fl_sub (np_maximum_accumulate row) row) bankroll_paths)"
  proof
    assume "[] \<in> set (map (\<lambda>row. map2 fl_sub (np_maximum_accumulate row) row) bankroll_paths)"
    then obtain row where "row \<in> set bankroll_paths"
      and "map2 fl_sub (np_maximum_accumulate row) row = []" by auto
    then show False using assms drawdown_row_nonempty[of row] by metis
  qed
  then have "collect (map (np_reduce np_maximum)
                (map (\<lambda>row. map2 fl_sub (np_maximum_accumulate row) row) bankroll_paths))
      = Inr (map (\<lambda>row. foldl np_maximum (hd row) (tl row))
               (map (\<lambda>row. map2 fl_sub (np_maximum_accumulate row) row) bankroll_paths))"
    by (rule reduce_axis1)
  moreover have "map2 (map2 fl_sub) (map np_maximum_accumulate bankroll_paths) bankroll_paths
      = map (\<lambda>row. map2 fl_sub (np_maximum_accumulate row) row) bankroll_paths"
    by (rule map2_map_self)
  ultimately show ?thesis
    unfolding max_drawdowns_def Let_def np_max_axis1_def by (simp add: comp_def)
qed

lemma map_of_dict_set: "map_of (dict_set k v d) = (map_of d)(k \<mapsto> v)"
  by (induction d) auto

lemma drawdown_loop_ok:
  assumes "max_drawdowns bankroll_paths = Inr mds"
  shows "\<exists>d'. drawdown_loop bankroll_paths thresholds d = Inr d'
           \<and> (\<forall>T. map_of d' T =
                  (if T \<in> set thresholds
                   then Some (np_true_divide (count_true (\<lambda>x. fl_ge x (Fin T)) mds)
                                (length bankroll_paths))
                   else map_of d T))"
proof (induction thresholds arbitrary: d)
  case Nil
  then show ?case by simp
next
  case (Cons t ts)
  let ?d1 = "dict_set t (np_true_divide (count_true (\<lambda>x. fl_ge x (Fin t)) mds)
                (length bankroll_paths)) d"
  from Cons[of ?d1] obtain d' where
    d': "drawdown_loop bankroll_paths ts ?d1 = Inr d'"
    and m: "\<And>T. map_of d' T =
                  (if T \<in> set ts
                   then Some (np_true_divide (count_true (\<lambda>x. fl_ge x (Fin T)) mds)
                                (length bankroll_paths))
                   else map_of ?d1 T)" by blast
  show ?case
    using assms d' m by (auto simp: Let_def map_of_dict_set)
qed

lemma count_true_mono:
  assumes "\<And>x. Q x \<Longrightarrow> P x"
  shows "count_true Q xs \<le> count_true P xs"
  unfolding count_true_def using assms by (induction xs) auto

lemma fl_ge_mono: "T1 \<le> T2 \<Longrightarrow> fl_ge x (Fin T2) \<Longrightarrow> fl_ge x (Fin T1)"
  by (cases x) (auto simp: fl_ge_def)

text \<open>
  Claim C7. For an array of bankroll paths with at least one trial and at least one
  entry per path, and for two thresholds \<open>T1 < T2\<close> of the list passed to
  \<open>calculate_drawdown_probabilities\<close>, the returned dictionary holds a probability for
  each of them and the one for \<open>T1\<close> is at least the one for \<open>T2\<close> (also in the sense of
  the floating-point comparison \<^verbatim>\<open>>=\<close>).
\<close>

theorem drawdown_probability_monotone:
  assumes "bankroll_paths \<noteq> []" and "[] \<notin> set bankroll_paths"
    and "T1 \<in> set thresholds" and "T2 \<in> set thresholds" and "T1 < T2"
  shows "\<exists>d p1 p2. calculate_drawdown_probabilities bankroll_paths thresholds = Inr d
           \<and> map_of d T1 = Some (Fin p1) \<and> map_of d T2 = Some (Fin p2) \<and> p2 \<le> p1
           \<and> fl_ge (Fin p1) (Fin p2)"
proof -
  obtain mds where mds: "max_drawdowns bankroll_paths = Inr mds"
    using max_drawdowns_ok[OF assms(2)] by blast
  let ?c = "\<lambda>T. count_true (\<lambda>x. fl_ge x (Fin T)) mds"
  let ?n = "length bankroll_paths"
  from drawdown_loop_ok[OF mds, of thresholds "[]"] obtain d where
    d: "calculate_drawdown_probabilities bankroll_paths thresholds = Inr d"
    and m: "\<And>T. map_of d T = (if T \<in> set thresholds then Some (np_true_divide (?c T) ?n)
                               else map_of [] T)"
    unfolding calculate_drawdown_probabilities_def by blast
  have n: "0 < ?n" using assms(1) by simp
  have le: "?c T2 \<le> ?c T1"
    by (rule count_true_mono) (use assms(5) fl_ge_mono[of T1 T2] in auto)
  have "real (?c T2) / real ?n \<le> real (?c T1) / real ?n"
    using le n by (simp add: divide_right_mono)
  moreover have "map_of d T1 = Some (Fin (real (?c T1) / real ?n))"
    using m[of T1] assms(3) n by (simp add: np_true_divide_def)
  moreover have "map_of d T2 = Some (Fin (real (?c T2) / real ?n))"
    using m[of T2] assms(4) n by (simp add: np_true_divide_def)
  ultimately show ?thesis using d by (auto simp: fl_ge_def)
qed

theorem drawdown_probability_monotone_witness:
  "[[Fin 100, Fin 85, Fin 90], [Fin 100, Fin 95, Fin 120]] \<noteq> []
   \<and> [] \<notin> set [[Fin 100, Fin 85, Fin 90], [Fin 100, Fin 95, Fin 120]]
   \<and> (10::real) \<in> set [10, 20] \<and> (20::real) \<in> set [10, 20] \<and> (10::real) < 20
   \<and> calculate_drawdown_probabilities [[Fin 100, Fin 85, Fin 90], [Fin 100, Fin 95, Fin 120]]
        [10, 20] = Inr [(10, Fin (1 / 2)), (20, Fin 0)]"
  using drawdown_probability_monotone
    [of "[[Fin 100, Fin 85, Fin 90], [Fin 100, Fin 95, Fin 120]]" 10 "[10, 20]" 20]
  by (simp add: calculate_drawdown_probabilities_def max_drawdowns_def np_max_axis1_def
      np_maximum_accumulate_def count_true_def fl_ge_def np_true_divide_def)

lemma accumulate_from_np_maximum_finite:
  "a \<noteq> NaN \<Longrightarrow> NaN \<notin> set xs \<Longrightarrow> NaN \<notin> set (accumulate_from np_maximum a xs)"
  by (induction xs arbitrary: a) auto

lemma map2_fl_sub_finite:
  "NaN \<notin> set xs \<Longrightarrow> NaN \<notin> set ys \<Longrightarrow> NaN \<notin> set (map2 fl_sub xs ys)"
proof (induction xs arbitrary: ys)
  case Nil
  then show ?case by simp
next
  case (Cons x xs)
  then show ?case by (cases ys) auto
qed

lemma foldl_np_maximum_ge:
  "a \<noteq> NaN \<Longrightarrow> NaN \<notin> set ys \<Longrightarrow>
   \<exists>d. fl_val (foldl np_maximum a ys) = Some d \<and> the (fl_val a) \<le> d"
proof (induction ys arbitrary: a)
  case Nil
  then show ?case by (cases a) auto
next
  case (Cons y ys)
  then have y: "y \<noteq> NaN" and ys: "NaN \<notin> set ys" by auto
  have ne: "np_maximum a y \<noteq> NaN" using Cons.prems(1) y by simp
  from Cons.IH[OF ne ys] obtain d where
    d: "fl_val (foldl np_maximum (np_maximum a y) ys) = Some d"
    and le: "the (fl_val (np_maximum a y)) \<le> d" by blast
  have "the (fl_val a) \<le> the (fl_val (np_maximum a y))"
    using fl_val_np_maximum[OF Cons.prems(1) y] by simp
  then show ?case using d le by auto
qed

lemma max_drawdown_finite_row:
  assumes "row \<noteq> []" and "NaN \<notin> set row"
  shows "\<exists>d. fl_val (foldl np_maximum (hd (map2 fl_sub (np_maximum_accumulate row) row))
                        (tl (map2 fl_sub (np_maximum_accumulate row) row))) = Some d \<and> 0 \<le> d"
proof -
  obtain x xs where row: "row = x # xs" using assms(1) by (cases row) auto
  then have x: "x \<noteq> NaN" and xs: "NaN \<notin> set xs" using assms(2) by auto
  have rest: "NaN \<notin> set (map2 fl_sub (accumulate_from np_maximum x xs) xs)"
    using x xs by (intro map2_fl_sub_finite accumulate_from_np_maximum_finite)
  have first: "fl_sub x x \<noteq> NaN" "the (fl_val (fl_sub x x)) = 0"
    using x fl_val_fl_sub[of x x] by auto
  from foldl_np_maximum_ge[OF first(1) rest] first(2) show ?thesis
    by (simp add: row np_maximum_accumulate_def)
qed

lemma simulate_bankroll_paths_rows:
  assumes "simulate_bankroll_paths G mu sigma b n_hands n_sims g = (Inr paths, g1)"
  shows "length paths = nat n_sims \<and> [] \<notin> set paths"
proof (cases "fl_signbit sigma \<or> n_sims < 0 \<or> n_hands < 0")
  case True
  then have "simulate_bankroll_paths G mu sigma b n_hands n_sims g = (Inl ValueError, rng_seed G 42)"
    by (rule simulate_bankroll_paths_error)
  with assms show ?thesis by simp
next
  case False
  then have "simulate_bankroll_paths G mu sigma b n_hands n_sims g =
      (Inr (map (\<lambda>r. b # map (fl_add b) (np_cumsum r))
              (fst (draw_rows G mu sigma (nat n_sims) (nat n_hands) (rng_seed G 42)))),
       snd (draw_rows G mu sigma (nat n_sims) (nat n_hands) (rng_seed G 42)))"
    by (intro simulate_bankroll_paths_ok) auto
  with assms have "paths = map (\<lambda>r. b # map (fl_add b) (np_cumsum r))
      (fst (draw_rows G mu sigma (nat n_sims) (nat n_hands) (rng_seed G 42)))" by simp
  then show ?thesis by (auto simp: draw_rows_length)
qed

text \<open>
  Claim C10 states that for every array \<open>simulate_bankroll_paths\<close> produces, from any
  \<open>mu\<close>, \<open>sigma\<close> and \<open>initial_bankroll\<close>, the probability returned for a threshold
  \<open>T \<le> 0\<close> is exactly 1. With \<open>mu = nan\<close> (one trial, two hands) every simulated entry
  after the first is \<open>nan\<close>, so is the path's maximum drawdown, the comparison \<^verbatim>\<open>>= 0\<close> is
  false, and the probability returned for the threshold 0 is 0.
\<close>

theorem nan_mu_drawdown_probability_zero:
  "fst (simulate_bankroll_paths \<lparr>rng_seed = \<lambda>s. s, rng_gauss = \<lambda>g. (real g, Suc g)\<rparr>
          NaN (Fin 2) (Fin 100) 2 1 (0::nat))
     = Inr [[Fin 100, NaN, NaN]]
   \<and> calculate_drawdown_probabilities [[Fin 100, NaN, NaN]] [0] = Inr [(0, Fin 0)]"
  by (simp add: simulate_bankroll_paths_def np_random_normal_def column_stack_def np_cumsum_def
      calculate_drawdown_probabilities_def max_drawdowns_def np_max_axis1_def
      np_maximum_accumulate_def count_true_def fl_ge_def np_true_divide_def eval_nat_numeral)

text \<open>
  Claim C10, as the code has it. For every array of bankroll paths with at least one
  trial and at least one entry per path whose entries are all numbers (no \<open>NaN\<close>; the
  model has no infinities), \<open>calculate_drawdown_probabilities\<close> returns probability
  exactly 1 for every threshold \<open>T \<le> 0\<close> of its list, the threshold 0 included: every
  path's maximum drawdown is at least the drawdown 0 of its initial step. Every array
  that \<open>simulate_bankroll_paths\<close> returns for \<open>n_simulations \<ge> 1\<close> has at least one trial
  and at least one entry per path, so for these arrays the one condition is that the
  entries are numbers.
\<close>

theorem drawdown_nonpositive_threshold_finite_paths:
  assumes "bankroll_paths \<noteq> []" and "[] \<notin> set bankroll_paths"
    and "\<forall>row\<in>set bankroll_paths. NaN \<notin> set row"
    and "T \<in> set thresholds" and "T \<le> 0"
  shows "(\<exists>d. calculate_drawdown_probabilities bankroll_paths thresholds = Inr d
            \<and> map_of d T = Some (Fin 1))
       \<and> (simulate_bankroll_paths G mu sigma b n_hands n_sims g = (Inr paths, g1) \<and> 1 \<le> n_sims
            \<longrightarrow> paths \<noteq> [] \<and> [] \<notin> set paths)"
proof (intro conjI impI)
  let ?md = "\<lambda>row. foldl np_maximum (hd (map2 fl_sub (np_maximum_accumulate row) row))
                      (tl (map2 fl_sub (np_maximum_accumulate row) row))"
  have mds: "max_drawdowns bankroll_paths = Inr (map ?md bankroll_paths)"
    using assms(2) by (rule max_drawdowns_ok)
  have "filter (\<lambda>x. fl_ge x (Fin T)) (map ?md bankroll_paths) = map ?md bankroll_paths"
  proof -
    have "fl_ge (?md row) (Fin T)" if "row \<in> set bankroll_paths" for row
    proof -
      have "row \<noteq> []" using that assms(2) by auto
      moreover have "NaN \<notin> set row" using that assms(3) by auto
      ultimately obtain d where "fl_val (?md row) = Some d" "0 \<le> d"
        using max_drawdown_finite_row by blast
      then show ?thesis using assms(5) by (simp add: fl_ge_Fin_iff)
    qed
    then show ?thesis by (simp add: filter_id_conv)
  qed
  then have cnt: "count_true (\<lambda>x. fl_ge x (Fin T)) (map ?md bankroll_paths)
                  = length bankroll_paths"
    by (simp add: count_true_def)
  from drawdown_loop_ok[OF mds, of thresholds "[]"] obtain d where
    d: "calculate_drawdown_probabilities bankroll_paths thresholds = Inr d"
    and m: "\<And>T. map_of d T =
       (if T \<in> set thresholds
        then Some (np_true_divide (count_true (\<lambda>x. fl_ge x (Fin T)) (map ?md bankroll_paths))
                     (length bankroll_paths))
        else map_of [] T)"
    unfolding calculate_drawdown_probabilities_def by blast
  have "map_of d T = Some (Fin 1)"
    using m[of T] assms(1,4) by (simp add: cnt np_true_divide_def)
  then show "\<exists>d. calculate_drawdown_probabilities bankroll_paths thresholds = Inr d
            \<and> map_of d T = Some (Fin 1)"
    using d by blast
next
  assume a: "simulate_bankroll_paths G mu sigma b n_hands n_sims g = (Inr paths, g1) \<and> 1 \<le> n_sims"
  then have "simulate_bankroll_paths G mu sigma b n_hands n_sims g = (Inr paths, g1)" by simp
  then have "length paths = nat n_sims" by (simp add: simulate_bankroll_paths_rows)
  then show "paths \<noteq> []" using a by auto
next
  assume "simulate_bankroll_paths G mu sigma b n_hands n_sims g = (Inr paths, g1) \<and> 1 \<le> n_sims"
  then have "simulate_bankroll_paths G mu sigma b n_hands n_sims g = (Inr paths, g1)" by simp
  then show "[] \<notin> set paths" by (simp add: simulate_bankroll_paths_rows)
qed

theorem drawdown_nonpositive_threshold_finite_paths_witness:
  "fst (simulate_bankroll_paths \<lparr>rng_seed = \<lambda>s. s, rng_gauss = \<lambda>g. (real g - 43, Suc g)\<rparr>
          (Fin 1) (Fin 2) (Fin 100) 2 2 (0::nat))
     = Inr [[Fin 100, Fin 99, Fin 100], [Fin 100, Fin 103, Fin 108]]
   \<and> calculate_drawdown_probabilities [[Fin 100, Fin 99, Fin 100], [Fin 100, Fin 103, Fin 108]]
        [0, 10] = Inr [(0, Fin 1), (10, Fin 0)]"
  using drawdown_nonpositive_threshold_finite_paths
    [of "[[Fin 100, Fin 99, Fin 100], [Fin 100, Fin 103, Fin 108]]" 0 "[0, 10]"
        "\<lparr>rng_seed = \<lambda>s. s, rng_gauss = \<lambda>g. (real g - 43, Suc g)\<rparr>" "Fin 1" "Fin 2" "Fin 100"
        2 2 "0::nat" "[[Fin 100, Fin 99, Fin 100], [Fin 100, Fin 103, Fin 108]]" 46]
  by (simp add: simulate_bankroll_paths_def np_random_normal_def column_stack_def np_cumsum_def
      calculate_drawdown_probabilities_def max_drawdowns_def np_max_axis1_def
      np_maximum_accumulate_def count_true_def fl_ge_def np_true_divide_def eval_nat_numeral)

subsection \<open>Zero variance\<close>

lemma draw_row_zero_scale: "fst (draw_row G (Fin m) (Fin 0) k g) = replicate k (Fin m)"
  by (induction k arbitrary: g) (simp_all add: case_prod_beta)

lemma draw_rows_zero_scale:
  "fst (draw_rows G (Fin m) (Fin 0) n k g) = replicate n (replicate k (Fin m))"
  by (induction n arbitrary: g) (simp_all add: case_prod_beta draw_row_zero_scale)

lemma foldl_fl_add_replicate:
  "foldl fl_add (Fin a) (replicate j (Fin m)) = Fin (a + real j * m)"
  by (induction j arbitrary: a) (simp_all add: algebra_simps)

lemma np_cumsum_replicate:
  "np_cumsum (replicate k (Fin m)) = map (\<lambda>j. Fin (m * real (Suc j))) [0..<k]"
proof (rule nth_equalityI)
  show "length (np_cumsum (replicate k (Fin m))) = length (map (\<lambda>j. Fin (m * real (Suc j))) [0..<k])"
    by (simp add: length_np_cumsum)
next
  fix i assume "i < length (np_cumsum (replicate k (Fin m)))"
  then have i: "i < k" by (simp add: length_np_cumsum)
  then have "np_cumsum (replicate k (Fin m)) ! i = np_sum (replicate (Suc i) (Fin m))"
    by (simp add: np_cumsum_nth min_def del: replicate_Suc)
  also have "\<dots> = Fin (m * real (Suc i))"
    unfolding np_sum_def foldl_fl_add_replicate by (simp add: algebra_simps)
  finally show "np_cumsum (replicate k (Fin m)) ! i = map (\<lambda>j. Fin (m * real (Suc j))) [0..<k] ! i"
    using i by simp
qed

lemma deterministic_row:
  "Fin b # map (fl_add (Fin b)) (np_cumsum (replicate k (Fin m)))
     = map (\<lambda>t. Fin (b + m * real t)) [0..<k + 1]"
proof -
  have "map (\<lambda>t. Fin (b + m * real t)) [0..<k + 1]
      = Fin b # map (\<lambda>t. Fin (b + m * real t)) (map Suc [0..<k])"
    by (simp add: map_Suc_upt upt_conv_Cons del: upt_Suc)
  then show ?thesis by (simp add: np_cumsum_replicate comp_def)
qed

lemma past_boundary:
  fixes b m h :: real
  assumes "m < 0" and "0 \<le> h" and "b + m * h * (1 - h / 2 ^ 52) \<le> 0"
  shows "b + m * h \<le> 0"
proof -
  have "0 \<le> (- m) * h * (h / 2 ^ 52)"
    using assms(1,2) by (intro mult_nonneg_nonneg) auto
  moreover have "m * h * (1 - h / 2 ^ 52) = m * h + (- m) * h * (h / 2 ^ 52)"
    by (simp add: algebra_simps)
  ultimately show ?thesis using assms(3) by linarith
qed

text \<open>
  Claim C6 states that for every \<open>sigma == 0\<close> and positive initial bankroll the risk of
  ruin computed from the simulated paths is exactly 0 when \<open>mu > 0\<close>. The zero with the
  sign bit set compares equal to 0, and \<^verbatim>\<open>np.random.normal\<close> rejects it as a negative
  scale: the call raises \<^verbatim>\<open>ValueError\<close>, and there are no paths to compute a risk of ruin
  from.
\<close>

theorem negative_zero_sigma_raises:
  "fl_eq NegZero (Fin 0)
   \<and> simulate_bankroll_paths \<lparr>rng_seed = \<lambda>s. s, rng_gauss = \<lambda>g. (real g, Suc g)\<rparr>
       (Fin 1) NegZero (Fin 10) 3 2 (0::nat) = (Inl ValueError, 42)"
  by (simp add: fl_eq_def simulate_bankroll_paths_def np_random_normal_def)

text \<open>
  Claim C6, as the code has it. With \<open>sigma\<close> the zero without sign bit, a positive
  initial bankroll, a horizon \<open>n_hands \<ge> 0\<close> and at least one trial, every trial is one
  and the same path of \<open>n_hands + 1\<close> entries that starts at the initial bankroll (no
  branch of the code treats \<open>sigma = 0\<close> specially), so the risk of ruin computed from
  the paths is exactly 0 or exactly 1. It is exactly 0 when \<open>mu > 0\<close>. It is exactly 1
  when \<open>mu < 0\<close> and \<open>initial_bankroll + mu * n_hands * (1 - n_hands / 2^52) \<le> 0\<close>, that
  is, when the horizon is past the boundary \<open>initial_bankroll + mu * n_hands \<le> 0\<close> by
  more than the rounding error that a \<^verbatim>\<open>float64\<close> running sum of \<open>n_hands\<close> equal terms
  can accumulate. (At the boundary itself the outcome depends on that rounding: for
  \<open>mu = -0.1\<close>, \<open>initial_bankroll = 1\<close> and \<open>n_hands = 10\<close> the \<^verbatim>\<open>float64\<close> path ends just
  above 0.)
\<close>

theorem zero_sigma_ruin:
  assumes "0 < b" and "0 \<le> n_hands" and "1 \<le> n_sims"
  shows "\<exists>row g1.
           simulate_bankroll_paths G (Fin m) (Fin 0) (Fin b) n_hands n_sims g =
             (Inr (replicate (nat n_sims) row), g1)
         \<and> length row = nat n_hands + 1
         \<and> row ! 0 = Fin b
         \<and> (calculate_risk_of_ruin (replicate (nat n_sims) row) 0 = Inr (Fin 0)
            \<or> calculate_risk_of_ruin (replicate (nat n_sims) row) 0 = Inr (Fin 1))
         \<and> (0 < m \<longrightarrow> calculate_risk_of_ruin (replicate (nat n_sims) row) 0 = Inr (Fin 0))
         \<and> (m < 0 \<and> b + m * real_of_int n_hands * (1 - real_of_int n_hands / 2 ^ 52) \<le> 0 \<longrightarrow>
              calculate_risk_of_ruin (replicate (nat n_sims) row) 0 = Inr (Fin 1))"
proof -
  let ?row = "map (\<lambda>t. Fin (b + m * real t)) [0..<nat n_hands + 1]"
  let ?p = "replicate (nat n_sims) ?row"
  let ?P = "\<lambda>row. NaN \<notin> set row \<and> (\<exists>x\<in>set row. fl_le x (Fin 0))"
  let ?g1 = "snd (draw_rows G (Fin m) (Fin 0) (nat n_sims) (nat n_hands) (rng_seed G 42))"
  have sim: "simulate_bankroll_paths G (Fin m) (Fin 0) (Fin b) n_hands n_sims g = (Inr ?p, ?g1)"
    using assms(2,3)
    by (simp add: simulate_bankroll_paths_ok draw_rows_zero_scale deterministic_row
        del: upt_Suc)
  have len: "length ?row = nat n_hands + 1" by simp
  have first: "?row ! 0 = Fin b"
    by (simp add: nth_map_upt del: upt_Suc)
  have n: "0 < nat n_sims" using assms(3) by simp
  have ne: "?p \<noteq> []" using n by simp
  have rows: "[] \<notin> set ?p" by simp
  have ror: "calculate_risk_of_ruin ?p 0 =
      Inr (Fin (real (length (filter ?P ?p)) / real (length ?p)))"
    using ne rows by (rule ror_fraction)
  have yes: "calculate_risk_of_ruin ?p 0 = Inr (Fin 1)" if "?P ?row"
  proof -
    have "filter ?P ?p = ?p" using that by (simp del: upt_Suc)
    then show ?thesis using ror n by simp
  qed
  have no: "calculate_risk_of_ruin ?p 0 = Inr (Fin 0)" if "\<not> ?P ?row"
  proof -
    have "filter ?P ?p = []" using that by (simp del: upt_Suc)
    then show ?thesis using ror by simp
  qed
  have either: "calculate_risk_of_ruin ?p 0 = Inr (Fin 0)
      \<or> calculate_risk_of_ruin ?p 0 = Inr (Fin 1)"
    using yes no by blast
  have up: "calculate_risk_of_ruin ?p 0 = Inr (Fin 0)" if "0 < m"
  proof (rule no)
    show "\<not> ?P ?row"
    proof
      assume "?P ?row"
      then obtain t where "b + m * real t \<le> 0" by auto
      moreover have "0 \<le> m * real t" using that by simp
      ultimately show False using assms(1) by linarith
    qed
  qed
  have down: "calculate_risk_of_ruin ?p 0 = Inr (Fin 1)"
    if "m < 0" "b + m * real_of_int n_hands * (1 - real_of_int n_hands / 2 ^ 52) \<le> 0"
  proof (rule yes)
    have h: "0 \<le> real_of_int n_hands" using assms(2) by simp
    have le: "b + m * real_of_int n_hands \<le> 0"
      using that(1) h that(2) by (rule past_boundary)
    have "nat n_hands \<in> set [0..<nat n_hands + 1]" by simp
    then have "Fin (b + m * real (nat n_hands)) \<in> set ?row"
      unfolding set_map by (rule imageI)
    moreover have "fl_le (Fin (b + m * real (nat n_hands))) (Fin 0)"
      using le assms(2) by simp
    ultimately show "?P ?row" by (auto simp del: upt_Suc)
  qed
  show ?thesis
  proof (rule exI[of _ ?row], rule exI[of _ ?g1], intro conjI impI)
    show "simulate_bankroll_paths G (Fin m) (Fin 0) (Fin b) n_hands n_sims g = (Inr ?p, ?g1)"
      by (rule sim)
    show "length ?row = nat n_hands + 1" by (rule len)
    show "?row ! 0 = Fin b" by (rule first)
    show "calculate_risk_of_ruin ?p 0 = Inr (Fin 0) \<or> calculate_risk_of_ruin ?p 0 = Inr (Fin 1)"
      by (rule either)
    show "calculate_risk_of_ruin ?p 0 = Inr (Fin 0)" if "0 < m"
      using that by (rule up)
    show "calculate_risk_of_ruin ?p 0 = Inr (Fin 1)"
      if "m < 0 \<and> b + m * real_of_int n_hands * (1 - real_of_int n_hands / 2 ^ 52) \<le> 0"
      using that down by blast
  qed
qed

theorem zero_sigma_ruin_witness:
  "fst (simulate_bankroll_paths \<lparr>rng_seed = \<lambda>s. s, rng_gauss = \<lambda>g. (real g, Suc g)\<rparr>
        (Fin 1) (Fin 0) (Fin 10) 3 2 (0::nat))
      = Inr [[Fin 10, Fin 11, Fin 12, Fin 13], [Fin 10, Fin 11, Fin 12, Fin 13]]
   \<and> calculate_risk_of_ruin [[Fin 10, Fin 11, Fin 12, Fin 13], [Fin 10, Fin 11, Fin 12, Fin 13]] 0
      = Inr (Fin 0)
   \<and> (10::real) + (-4) * real_of_int 3 * (1 - real_of_int 3 / 2 ^ 52) \<le> 0
   \<and> fst (simulate_bankroll_paths \<lparr>rng_seed = \<lambda>s. s, rng_gauss = \<lambda>g. (real g, Suc g)\<rparr>
        (Fin (-4)) (Fin 0) (Fin 10) 3 2 (0::nat))
      = Inr [[Fin 10, Fin 6, Fin 2, Fin (-2)], [Fin 10, Fin 6, Fin 2, Fin (-2)]]
   \<and> calculate_risk_of_ruin [[Fin 10, Fin 6, Fin 2, Fin (-2)], [Fin 10, Fin 6, Fin 2, Fin (-2)]] 0
      = Inr (Fin 1)"
  using zero_sigma_ruin
      [of 10 3 2 "\<lparr>rng_seed = \<lambda>s. s, rng_gauss = \<lambda>g. (real g, Suc g)\<rparr>" 1 "0::nat"]
    zero_sigma_ruin
      [of 10 3 2 "\<lparr>rng_seed = \<lambda>s. s, rng_gauss = \<lambda>g. (real g, Suc g)\<rparr>" "-4" "0::nat"]
  by (simp add: simulate_bankroll_paths_def np_random_normal_def column_stack_def np_cumsum_def
      calculate_risk_of_ruin_def np_min_axis1_def count_true_def np_true_divide_def
      eval_nat_numeral)

subsection \<open>Reproducibility\<close>

lemma simulate_state_independent:
  "simulate_bankroll_paths G mu sigma b n_hands n_sims g1 =
   simulate_bankroll_paths G mu sigma b n_hands n_sims g2"
  by (simp add: simulate_bankroll_paths_def)

lemma run_horizon_state_independent:
  "fst (run_horizon G cfg mu sigma n_hands r g1) = fst (run_horizon G cfg mu sigma n_hands r g2)"
  unfolding run_horizon_def simulate_state_independent[of G mu sigma _ n_hands _ g1 g2]
  by (simp split: option.splits prod.splits sum.splits)

lemma horizons_loop_state_independent:
  "fst (horizons_loop G cfg mu sigma hs r g1) = fst (horizons_loop G cfg mu sigma hs r g2)"
proof (induction hs arbitrary: r g1 g2)
  case Nil
  then show ?case by simp
next
  case (Cons h hs)
  obtain x1 s1 where a: "run_horizon G cfg mu sigma h r g1 = (x1, s1)"
    by (cases "run_horizon G cfg mu sigma h r g1")
  obtain x2 s2 where b: "run_horizon G cfg mu sigma h r g2 = (x2, s2)"
    by (cases "run_horizon G cfg mu sigma h r g2")
  have "x1 = x2" using run_horizon_state_independent[of G cfg mu sigma h r g1 g2] a b by simp
  then show ?case using a b Cons.IH by (cases x1) auto
qed

lemma run_stake_state_independent:
  "fst (run_stake G cfg row g1) = fst (run_stake G cfg row g2)"
  by (simp add: run_stake_def Let_def horizons_loop_state_independent split: option.splits)

lemma stakes_loop_state_independent:
  "fst (stakes_loop G cfg rows acc g1) = fst (stakes_loop G cfg rows acc g2)"
proof (induction rows arbitrary: acc g1 g2)
  case Nil
  then show ?case by simp
next
  case (Cons row rows)
  obtain x1 s1 where a: "run_stake G cfg row g1 = (x1, s1)" by (cases "run_stake G cfg row g1")
  obtain x2 s2 where b: "run_stake G cfg row g2 = (x2, s2)" by (cases "run_stake G cfg row g2")
  have "x1 = x2" using run_stake_state_independent[of G cfg row g1 g2] a b by simp
  then show ?case using a b Cons.IH by (cases x1) auto
qed

text \<open>
  Claim C5. The simulator reseeds the global generator on every call, so its result
  (the paths, and the generator state it leaves behind) does not depend on the state of
  the generator before the call: two invocations with the same arguments, with any
  random-number generation in between, return the same paths. Hence the risk of ruin,
  the drawdown probabilities and the terminal statistics of one horizon (the entries
  \<open>run_horizon\<close> adds to a result row), and the whole table of
  \<open>run_stake_simulations\<close>, do not depend on it either.
\<close>

theorem simulation_deterministic:
  "simulate_bankroll_paths G mu sigma b n_hands n_sims g1 =
     simulate_bankroll_paths G mu sigma b n_hands n_sims g2
   \<and> fst (run_horizon G cfg mu sigma n_hands r g1) = fst (run_horizon G cfg mu sigma n_hands r g2)
   \<and> fst (run_stake_simulations G estimates_df cfg g1) =
       fst (run_stake_simulations G estimates_df cfg g2)"
proof (intro conjI)
  show "simulate_bankroll_paths G mu sigma b n_hands n_sims g1 =
        simulate_bankroll_paths G mu sigma b n_hands n_sims g2"
    by (rule simulate_state_independent)
  show "fst (run_horizon G cfg mu sigma n_hands r g1) = fst (run_horizon G cfg mu sigma n_hands r g2)"
    by (rule run_horizon_state_independent)
  show "fst (run_stake_simulations G estimates_df cfg g1) =
        fst (run_stake_simulations G estimates_df cfg g2)"
    unfolding run_stake_simulations_def by (rule stakes_loop_state_independent)
qed

subsection \<open>Parameter estimation\<close>

lemma set_pd_unique: "set (pd_unique xs) = set xs"
  by (induction xs) auto

lemma distinct_pd_unique: "distinct (pd_unique xs)"
  by (induction xs) (auto simp: set_pd_unique)

lemma estimate_loop_eq:
  "estimate_loop t_ppf df stakes estimates =
     estimates @ map (\<lambda>s. estimate_stake t_ppf s (filter (\<lambda>r. stake_text r = s) df))
                   (filter (\<lambda>s. 3 \<le> length (filter (\<lambda>r. stake_text r = s) df)) stakes)"
  by (induction stakes arbitrary: estimates) (auto simp: Let_def)

lemma est_stake_text_estimate_stake: "est_stake_text (estimate_stake t_ppf s d) = s"
  by (simp add: estimate_stake_def Let_def)

lemma estimate_stakes:
  "map est_stake_text (estimate_mu_sigma_by_stake t_ppf df) =
     filter (\<lambda>s. 3 \<le> length (filter (\<lambda>r. stake_text r = s) df)) (pd_unique (map stake_text df))"
  by (simp add: estimate_mu_sigma_by_stake_def estimate_loop_eq comp_def
      est_stake_text_estimate_stake)

lemma filter_distinct_eq:
  "distinct xs \<Longrightarrow> filter (\<lambda>y. y = s) xs = (if s \<in> set xs then [s] else [])"
  by (induction xs) auto

lemma group_stake_present:
  "3 \<le> length (filter (\<lambda>r. stake_text r = s) df) \<Longrightarrow> s \<in> set (map stake_text df)"
proof -
  assume "3 \<le> length (filter (\<lambda>r. stake_text r = s) df)"
  then have "filter (\<lambda>r. stake_text r = s) df \<noteq> []" by auto
  then obtain r where "r \<in> set df" "stake_text r = s"
    by (metis (mono_tags, lifting) filter_False)
  then show ?thesis by force
qed

lemma estimate_rows_of_stake:
  "filter (\<lambda>e. est_stake_text e = s) (estimate_mu_sigma_by_stake t_ppf df) =
     (if 3 \<le> length (filter (\<lambda>r. stake_text r = s) df)
      then [estimate_stake t_ppf s (filter (\<lambda>r. stake_text r = s) df)] else [])"
proof -
  let ?cnt = "\<lambda>s. length (filter (\<lambda>r. stake_text r = s) df)"
  let ?keys = "filter (\<lambda>s. 3 \<le> ?cnt s) (pd_unique (map stake_text df))"
  let ?mk = "\<lambda>s. estimate_stake t_ppf s (filter (\<lambda>r. stake_text r = s) df)"
  have out: "estimate_mu_sigma_by_stake t_ppf df = map ?mk ?keys"
    by (simp add: estimate_mu_sigma_by_stake_def estimate_loop_eq)
  have "filter (\<lambda>e. est_stake_text e = s) (map ?mk ?keys) = map ?mk (filter (\<lambda>k. k = s) ?keys)"
    by (simp add: filter_map comp_def est_stake_text_estimate_stake)
  also have "filter (\<lambda>k. k = s) ?keys = (if s \<in> set ?keys then [s] else [])"
    by (rule filter_distinct_eq) (simp add: distinct_pd_unique)
  also have "s \<in> set ?keys \<longleftrightarrow> 3 \<le> ?cnt s"
    using group_stake_present[of s df] by (auto simp: set_pd_unique)
  finally show ?thesis by (simp add: out)
qed

text \<open>
  Claim C4. The estimator is total (it raises no error: a small group is skipped by
  \<^verbatim>\<open>continue\<close>). For every stake, its output holds no row of that stake when the input
  table has fewer than 3 sessions of it, and exactly one row otherwise; the rows come in
  the order in which the stakes first appear in the input.
\<close>

theorem estimate_minimum_sample_size:
  "length (filter (\<lambda>e. est_stake_text e = s) (estimate_mu_sigma_by_stake t_ppf df)) =
     (if length (filter (\<lambda>r. stake_text r = s) df) < 3 then 0 else 1)
   \<and> map est_stake_text (estimate_mu_sigma_by_stake t_ppf df) =
       filter (\<lambda>s. 3 \<le> length (filter (\<lambda>r. stake_text r = s) df)) (pd_unique (map stake_text df))"
  by (simp add: estimate_rows_of_stake estimate_stakes)

lemma pd_values_map_Fin: "pd_values (map Fin xs) = xs"
  by (induction xs) (simp_all add: pd_values_def)

lemma sample_variance_nonneg: "2 \<le> length xs \<Longrightarrow> 0 \<le> sample_variance xs"
  unfolding sample_variance_def
  by (intro divide_nonneg_nonneg sum_list_nonneg) auto

lemma pd_mean_eq: "xs \<noteq> [] \<Longrightarrow> pd_mean (map Fin xs) = Fin (sample_mean xs)"
  by (simp add: pd_mean_def pd_values_map_Fin sample_mean_def)

lemma pd_var_eq: "2 \<le> length xs \<Longrightarrow> pd_var (map Fin xs) = Fin (sample_variance xs)"
proof -
  assume n: "2 \<le> length xs"
  have "(\<Sum>x\<leftarrow>xs. (sum_list xs / real (length xs) - x)\<^sup>2)
      = (\<Sum>x\<leftarrow>xs. (x - sum_list xs / real (length xs))\<^sup>2)"
    by (simp add: power2_commute)
  moreover have "real (length xs - 1) = real (length xs) - 1" using n by (simp add: of_nat_diff)
  ultimately show ?thesis using n
    by (simp add: pd_var_def pd_values_map_Fin sample_variance_def sample_mean_def Let_def)
qed

lemma pd_std_eq: "2 \<le> length xs \<Longrightarrow> pd_std (map Fin xs) = Fin (sqrt (sample_variance xs))"
  using sample_variance_nonneg[of xs] by (simp add: pd_std_def pd_var_eq)

lemma standard_error_eq:
  assumes "2 \<le> length xs" and "0 < n"
  shows "fl_div (pd_std (map Fin xs)) (np_sqrt (Fin (real n)))
           = Fin (sqrt (sample_variance xs) / sqrt (real n))"
  using assms by (simp add: pd_std_eq)

lemma sum_squares_constant:
  "(\<And>x. x \<in> set xs \<Longrightarrow> x = c) \<Longrightarrow> (\<Sum>x\<leftarrow>xs. (x - c)\<^sup>2) = (0::real)"
  by (induction xs) auto

text \<open>
  Claim C3 states that for every stake group with at least 3 sessions the output row's
  variance is the sample variance of \<^verbatim>\<open>bb_per_hand\<close> with the denominator \<open>n - 1\<close>, the
  degrees of freedom and the standard error being those of \<open>n_sessions\<close> samples. In a
  group of three sessions of which one has no \<^verbatim>\<open>bb_per_hand\<close>, pandas computes the mean
  and the variance from the two values present, 1 and 3: the output row has
  \<open>n_sessions = 3\<close>, mean 2 and variance \<open>((1 - 2)\<^sup>2 + (3 - 2)\<^sup>2) / (2 - 1) = 2\<close>, not the
  value 1 that the denominator \<open>n_sessions - 1\<close> gives. (This holds whatever
  \<^verbatim>\<open>scipy.stats.t.ppf\<close> returns.)
\<close>

theorem missing_sample_is_skipped:
  "\<forall>t_ppf.
     map n_sessions (estimate_mu_sigma_by_stake t_ppf example_sessions_missing) = [3]
   \<and> map mu_bb_per_hand (estimate_mu_sigma_by_stake t_ppf example_sessions_missing) = [Fin 2]
   \<and> map sigma2_bb_per_hand (estimate_mu_sigma_by_stake t_ppf example_sessions_missing)
       = [Fin 2]
   \<and> map sigma2_bb_per_hand (estimate_mu_sigma_by_stake t_ppf example_sessions_missing)
       \<noteq> [Fin ((\<Sum>x\<leftarrow>[1, 3]. (x - 2)\<^sup>2) / (real 3 - 1))]"
  by (simp add: example_sessions_missing_def estimate_mu_sigma_by_stake_def estimate_stake_def
      pd_mean_def pd_var_def pd_std_def pd_values_def Let_def power2_eq_square)

text \<open>
  Claim C3, as the code has it. For a stake with at least 3 sessions whose \<^verbatim>\<open>bb_per_hand\<close>
  and \<^verbatim>\<open>usd_per_hand\<close> are all present, and of magnitude at most \<open>2^400\<close> (so that no
  \<^verbatim>\<open>float64\<close> operation overflows), the output holds exactly one row of that stake, with
  \<open>n_sessions\<close> the number of sessions. When the \<^verbatim>\<open>bb_per_hand\<close> of the group are not all
  equal, the row's \<open>mu_bb_per_hand\<close> is their arithmetic mean, its \<open>sigma2_bb_per_hand\<close>
  their sample variance with denominator \<open>n - 1\<close>, and its confidence bounds are the mean
  minus and plus \<open>t_crit\<close> times the sample standard deviation divided by
  \<open>sqrt n_sessions\<close>, where \<open>t_crit\<close> is the 0.975 quantile of Student's t distribution
  with \<open>n_sessions - 1\<close> degrees of freedom; the same holds for \<open>usd_per_hand\<close>. (The
  equations are those of real arithmetic; the program evaluates them in \<^verbatim>\<open>float64\<close>, each
  operation rounded.) When all \<^verbatim>\<open>bb_per_hand\<close> of the group equal \<open>c\<close> and the computed
  mean is \<open>c\<close>, the variance is 0 and both bounds equal \<open>c\<close>; the same holds for
  \<open>usd_per_hand\<close>. (The computed mean of equal samples is not always \<open>c\<close> in \<^verbatim>\<open>float64\<close>:
  the mean of three samples 0.1 is 0.10000000000000002, and the variance then is not 0
  but the square of a rounding error.)
\<close>

theorem estimate_row_statistics:
  assumes "stake_data = filter (\<lambda>r. stake_text r = stake) df"
    and "3 \<le> length stake_data"
    and "map bb_per_hand stake_data = map Fin bb" and "\<forall>x\<in>set bb. \<bar>x\<bar> \<le> 2 ^ 400"
    and "map usd_per_hand stake_data = map Fin usd" and "\<forall>x\<in>set usd. \<bar>x\<bar> \<le> 2 ^ 400"
    and "t_crit = t_ppf (975 / 1000) (length stake_data - 1)"
  shows "\<exists>e. filter (\<lambda>e. est_stake_text e = stake) (estimate_mu_sigma_by_stake t_ppf df) = [e]
     \<and> n_sessions e = length stake_data
     \<and> ((\<exists>x\<in>set bb. \<exists>y\<in>set bb. x \<noteq> y) \<longrightarrow>
           mu_bb_per_hand e = Fin (sample_mean bb)
         \<and> sigma2_bb_per_hand e = Fin (sample_variance bb)
         \<and> mu_bb_ci_lower e =
             Fin (sample_mean bb
                  - t_crit * (sqrt (sample_variance bb) / sqrt (real (length stake_data))))
         \<and> mu_bb_ci_upper e =
             Fin (sample_mean bb
                  + t_crit * (sqrt (sample_variance bb) / sqrt (real (length stake_data)))))
     \<and> ((\<exists>x\<in>set usd. \<exists>y\<in>set usd. x \<noteq> y) \<longrightarrow>
           mu_usd_per_hand e = Fin (sample_mean usd)
         \<and> sigma2_usd_per_hand e = Fin (sample_variance usd)
         \<and> mu_usd_ci_lower e =
             Fin (sample_mean usd
                  - t_crit * (sqrt (sample_variance usd) / sqrt (real (length stake_data))))
         \<and> mu_usd_ci_upper e =
             Fin (sample_mean usd
                  + t_crit * (sqrt (sample_variance usd) / sqrt (real (length stake_data)))))
     \<and> ((\<forall>x\<in>set bb. x = c) \<and> mu_bb_per_hand e = Fin c \<longrightarrow>
           sigma2_bb_per_hand e = Fin 0 \<and> mu_bb_ci_lower e = Fin c \<and> mu_bb_ci_upper e = Fin c)
     \<and> ((\<forall>x\<in>set usd. x = d) \<and> mu_usd_per_hand e = Fin d \<longrightarrow>
           sigma2_usd_per_hand e = Fin 0 \<and> mu_usd_ci_lower e = Fin d
         \<and> mu_usd_ci_upper e = Fin d)"
proof -
  let ?e = "estimate_stake t_ppf stake stake_data"
  let ?n = "length stake_data"
  have row: "filter (\<lambda>e. est_stake_text e = stake) (estimate_mu_sigma_by_stake t_ppf df) = [?e]"
    using assms(1,2) by (simp add: estimate_rows_of_stake)
  have "length bb = ?n" using assms(3) by (metis length_map)
  moreover have "length usd = ?n" using assms(5) by (metis length_map)
  ultimately have lb: "2 \<le> length bb" "bb \<noteq> []" and lu: "2 \<le> length usd" "usd \<noteq> []"
    and n: "0 < ?n"
    using assms(2) by auto
  have t: "t_ppf (39 / 40) (?n - Suc 0) = t_crit"
    using assms(7) by simp
  have se_bb: "fl_div (pd_std (map Fin bb)) (Fin (sqrt (real ?n)))
      = Fin (sqrt (sample_variance bb) / sqrt (real ?n))"
    using standard_error_eq[OF lb(1) n] by simp
  have se_usd: "fl_div (pd_std (map Fin usd)) (Fin (sqrt (real ?n)))
      = Fin (sqrt (sample_variance usd) / sqrt (real ?n))"
    using standard_error_eq[OF lu(1) n] by simp
  have f1: "n_sessions ?e = ?n" by (simp add: estimate_stake_def Let_def)
  have f2: "mu_bb_per_hand ?e = Fin (sample_mean bb)"
    using lb(2) by (simp add: estimate_stake_def Let_def assms(3) pd_mean_eq)
  have f3: "sigma2_bb_per_hand ?e = Fin (sample_variance bb)"
    using lb(1) by (simp add: estimate_stake_def Let_def assms(3) pd_var_eq)
  have f4: "mu_bb_ci_lower ?e =
      Fin (sample_mean bb - t_crit * (sqrt (sample_variance bb) / sqrt (real ?n)))"
    using lb(2) by (simp add: estimate_stake_def Let_def assms(3) pd_mean_eq se_bb t)
  have f5: "mu_bb_ci_upper ?e =
      Fin (sample_mean bb + t_crit * (sqrt (sample_variance bb) / sqrt (real ?n)))"
    using lb(2) by (simp add: estimate_stake_def Let_def assms(3) pd_mean_eq se_bb t)
  have g2: "mu_usd_per_hand ?e = Fin (sample_mean usd)"
    using lu(2) by (simp add: estimate_stake_def Let_def assms(5) pd_mean_eq)
  have g3: "sigma2_usd_per_hand ?e = Fin (sample_variance usd)"
    using lu(1) by (simp add: estimate_stake_def Let_def assms(5) pd_var_eq)
  have g4: "mu_usd_ci_lower ?e =
      Fin (sample_mean usd - t_crit * (sqrt (sample_variance usd) / sqrt (real ?n)))"
    using lu(2) by (simp add: estimate_stake_def Let_def assms(5) pd_mean_eq se_usd t)
  have g5: "mu_usd_ci_upper ?e =
      Fin (sample_mean usd + t_crit * (sqrt (sample_variance usd) / sqrt (real ?n)))"
    using lu(2) by (simp add: estimate_stake_def Let_def assms(5) pd_mean_eq se_usd t)
  have z: "sigma2_bb_per_hand ?e = Fin 0 \<and> mu_bb_ci_lower ?e = Fin c \<and> mu_bb_ci_upper ?e = Fin c"
    if "(\<forall>x\<in>set bb. x = c) \<and> mu_bb_per_hand ?e = Fin c"
  proof -
    have m: "sample_mean bb = c" using that f2 by simp
    have "(\<Sum>x\<leftarrow>bb. (x - c)\<^sup>2) = 0"
      using that by (intro sum_squares_constant) auto
    then have "sample_variance bb = 0" by (simp add: sample_variance_def m)
    then show ?thesis using m by (simp add: f3 f4 f5)
  qed
  have zu: "sigma2_usd_per_hand ?e = Fin 0 \<and> mu_usd_ci_lower ?e = Fin d
      \<and> mu_usd_ci_upper ?e = Fin d"
    if "(\<forall>x\<in>set usd. x = d) \<and> mu_usd_per_hand ?e = Fin d"
  proof -
    have m: "sample_mean usd = d" using that g2 by simp
    have "(\<Sum>x\<leftarrow>usd. (x - d)\<^sup>2) = 0"
      using that by (intro sum_squares_constant) auto
    then have "sample_variance usd = 0" by (simp add: sample_variance_def m)
    then show ?thesis using m by (simp add: g3 g4 g5)
  qed
  show ?thesis
    using row f1 f2 f3 f4 f5 g2 g3 g4 g5 z zu by blast
qed

theorem estimate_row_statistics_witness:
  "map est_stake_text (estimate_mu_sigma_by_stake (\<lambda>p k. 3) example_sessions) = [''2-5'', ''5-10'']
   \<and> map n_sessions (estimate_mu_sigma_by_stake (\<lambda>p k. 3) example_sessions) = [4, 3]
   \<and> map mu_bb_per_hand (estimate_mu_sigma_by_stake (\<lambda>p k. 3) example_sessions) = [Fin 1, Fin 2]
   \<and> map sigma2_bb_per_hand (estimate_mu_sigma_by_stake (\<lambda>p k. 3) example_sessions)
       = [Fin (2 / 75), Fin 0]
   \<and> map mu_bb_ci_lower (estimate_mu_sigma_by_stake (\<lambda>p k. 3) example_sessions)
       = [Fin (1 - 3 * (sqrt (2 / 75) / 2)), Fin 2]
   \<and> map mu_bb_ci_upper (estimate_mu_sigma_by_stake (\<lambda>p k. 3) example_sessions)
       = [Fin (1 + 3 * (sqrt (2 / 75) / 2)), Fin 2]"
  using estimate_row_statistics
      [OF refl _ _ _ _ _ refl, where stake = "''2-5''" and df = example_sessions
        and t_ppf = "\<lambda>p k. 3" and bb = "[1, 6 / 5, 4 / 5, 1]" and usd = "[5, 6, 4, 5]"
        and c = 1 and d = 5]
    estimate_row_statistics
      [OF refl _ _ _ _ _ refl, where stake = "''5-10''" and df = example_sessions
        and t_ppf = "\<lambda>p k. 3" and bb = "[2, 2, 2]" and usd = "[20, 20, 20]"
        and c = 2 and d = 20]
  by (simp add: example_sessions_def estimate_mu_sigma_by_stake_def estimate_stake_def
      pd_mean_def pd_var_def pd_std_def pd_sum_def pd_values_def Let_def power2_eq_square)

subsection \<open>The simulation loop over stakes and horizons\<close>

lemma calculate_risk_of_ruin_ok:
  "[] \<notin> set paths \<Longrightarrow> \<exists>v. calculate_risk_of_ruin paths t = Inr v"
  by (simp add: calculate_risk_of_ruin_def np_min_axis1_def reduce_axis1)

lemma set_fst_dict_set: "fst ` set (dict_set k v d) = insert k (fst ` set d)"
  by (induction d) auto

lemma distinct_dict_set: "distinct (map fst d) \<Longrightarrow> distinct (map fst (dict_set k v d))"
  by (induction d) (auto simp: set_fst_dict_set)

lemma drawdown_loop_distinct:
  "drawdown_loop paths ths d = Inr d' \<Longrightarrow> distinct (map fst d) \<Longrightarrow> distinct (map fst d')"
proof (induction ths arbitrary: d)
  case Nil
  then show ?case by simp
next
  case (Cons t ts)
  then show ?case
    by (auto simp: Let_def distinct_dict_set split: sum.splits)
qed

lemma calculate_drawdown_probabilities_ok:
  assumes "[] \<notin> set paths"
  shows "\<exists>d. calculate_drawdown_probabilities paths ths = Inr d
           \<and> distinct (map fst d) \<and> (\<forall>T\<in>set ths. \<exists>p. map_of d T = Some p)"
proof -
  obtain mds where "max_drawdowns paths = Inr mds" using max_drawdowns_ok[OF assms] by blast
  from drawdown_loop_ok[OF this, of ths "[]"] obtain d where
    d: "drawdown_loop paths ths [] = Inr d"
    and m: "\<And>T. map_of d T =
       (if T \<in> set ths
        then Some (np_true_divide (count_true (\<lambda>x. fl_ge x (Fin T)) mds) (length paths))
        else map_of [] T)" by blast
  have "distinct (map fst d)" using drawdown_loop_distinct[OF d] by simp
  then show ?thesis
    unfolding calculate_drawdown_probabilities_def using d m by auto
qed

lemma last_column_ok: "[] \<notin> set paths \<Longrightarrow> last_column paths = Inr (map last paths)"
  unfolding last_column_def by (induction paths) auto

lemma np_percentile_ok: "a \<noteq> [] \<Longrightarrow> \<exists>p. np_percentile a q = Inr p"
  by (simp add: np_percentile_def Let_def split: option.splits)

lemma map_of_store_other:
  "(\<And>T. k \<noteq> K_dd T h) \<Longrightarrow> map_of (store_drawdowns h dd r) k = map_of r k"
  unfolding store_drawdowns_def
  by (induction dd arbitrary: r) (auto simp: map_of_dict_set split: prod.splits)

lemma map_of_store_absent:
  "T \<notin> fst ` set dd \<Longrightarrow>
   map_of (store_drawdowns h dd r) (K_dd T h) = map_of r (K_dd T h)"
  unfolding store_drawdowns_def
  by (induction dd arbitrary: r) (auto simp: map_of_dict_set split: prod.splits)

lemma map_of_store_present:
  "distinct (map fst dd) \<Longrightarrow> map_of dd T = Some p \<Longrightarrow>
   map_of (store_drawdowns h dd r) (K_dd T h) = Some (Num p)"
proof (induction dd arbitrary: r)
  case Nil
  then show ?case by simp
next
  case (Cons tp dd)
  obtain t q where tp: "tp = (t, q)" by (cases tp)
  have step: "store_drawdowns h (tp # dd) r = store_drawdowns h dd (dict_set (K_dd t h) (Num q) r)"
    by (simp add: store_drawdowns_def tp)
  show ?case
  proof (cases "t = T")
    case True
    then have "p = q" and "T \<notin> fst ` set dd" using Cons.prems tp by auto
    then show ?thesis
      using True by (simp add: step map_of_store_absent map_of_dict_set)
  next
    case False
    then have "map_of dd T = Some p" and "distinct (map fst dd)" using Cons.prems tp by auto
    then show ?thesis using Cons.IH by (simp add: step)
  qed
qed

lemma map_of_store_key_horizon:
  "key_horizon k \<noteq> Some h \<Longrightarrow> map_of (store_drawdowns h dd r) k = map_of r k"
  by (rule map_of_store_other) auto

lemma fl_signbit_np_sqrt: "fl_signbit (np_sqrt x) \<longleftrightarrow> x = NegZero"
  by (cases x) auto

lemma horizon_cells_cong:
  assumes "horizon_cells G mu sigma b n ths h r"
    and "\<And>k. key_horizon k = Some h \<Longrightarrow> map_of r' k = map_of r k"
  shows "horizon_cells G mu sigma b n ths h r'"
proof -
  have k: "map_of r' (K_ror h) = map_of r (K_ror h)"
    "map_of r' (K_final_mean h) = map_of r (K_final_mean h)"
    "map_of r' (K_final_std h) = map_of r (K_final_std h)"
    "map_of r' (K_final_p10 h) = map_of r (K_final_p10 h)"
    "map_of r' (K_final_p90 h) = map_of r (K_final_p90 h)"
    "\<And>T. map_of r' (K_dd T h) = map_of r (K_dd T h)"
    using assms(2) by simp_all
  show ?thesis
    using assms(1) unfolding horizon_cells_def k .
qed

lemma run_horizon_cells:
  assumes "cfg_current_bankroll_bb cfg = Some b" and "cfg_n_simulations cfg = Some n"
    and "cfg_drawdown_thresholds cfg = Some ths"
    and "1 \<le> n" and "0 \<le> h" and "\<not> fl_signbit sigma"
  shows "\<exists>r' g'. run_horizon G cfg mu sigma h r g = (Inr r', g')
           \<and> horizon_cells G mu sigma b n ths h r'
           \<and> (\<forall>k. key_horizon k \<noteq> Some h \<longrightarrow> map_of r' k = map_of r k)"
proof -
  let ?a = "fst (draw_rows G mu sigma (nat n) (nat h) (rng_seed G 42))"
  let ?g = "snd (draw_rows G mu sigma (nat n) (nat h) (rng_seed G 42))"
  let ?p = "map (\<lambda>r. b # map (fl_add b) (np_cumsum r)) ?a"
  have sim: "simulate_bankroll_paths G mu sigma b h n g = (Inr ?p, ?g)"
    using assms(4-6) by (intro simulate_bankroll_paths_ok) auto
  have rows: "[] \<notin> set ?p" by auto
  have "length ?a = nat n" by (rule draw_rows_length)
  then have ne: "map last ?p \<noteq> []" using assms(4) by auto
  obtain ror where ror: "calculate_risk_of_ruin ?p 0 = Inr ror"
    using calculate_risk_of_ruin_ok[OF rows] by blast
  obtain dd where dd: "calculate_drawdown_probabilities ?p ths = Inr dd"
    and dist: "distinct (map fst dd)" and ex: "\<forall>T\<in>set ths. \<exists>p. map_of dd T = Some p"
    using calculate_drawdown_probabilities_ok[OF rows] by blast
  have lc: "last_column ?p = Inr (map last ?p)" using rows by (rule last_column_ok)
  obtain p10 where p10: "np_percentile (map last ?p) 10 = Inr p10"
    using np_percentile_ok[OF ne] by blast
  obtain p90 where p90: "np_percentile (map last ?p) 90 = Inr p90"
    using np_percentile_ok[OF ne] by blast
  let ?r1 = "dict_set (K_final_p90 h) (Num p90)
              (dict_set (K_final_p10 h) (Num p10)
              (dict_set (K_final_std h) (Num (np_std (map last ?p)))
              (dict_set (K_final_mean h) (Num (np_mean (map last ?p)))
              (dict_set (K_ror h) (Num ror) r))))"
  let ?r' = "store_drawdowns h dd ?r1"
  have run: "run_horizon G cfg mu sigma h r g = (Inr ?r', ?g)"
    unfolding run_horizon_def
    by (simp add: assms(1-3) sim ror dd lc p10 p90 del: map_map)
  have keep: "map_of ?r' k = map_of r k" if "key_horizon k \<noteq> Some h" for k
  proof -
    have "map_of ?r' k = map_of ?r1 k" using that by (rule map_of_store_key_horizon)
    also have "\<dots> = map_of r k" using that by (auto simp: map_of_dict_set)
    finally show ?thesis .
  qed
  have dds: "\<forall>T\<in>set ths. \<exists>p. map_of dd T = Some p \<and> map_of ?r' (K_dd T h) = Some (Num p)"
  proof
    fix T assume "T \<in> set ths"
    then obtain p where p: "map_of dd T = Some p" using ex by blast
    then have "map_of ?r' (K_dd T h) = Some (Num p)"
      using dist by (intro map_of_store_present)
    then show "\<exists>p. map_of dd T = Some p \<and> map_of ?r' (K_dd T h) = Some (Num p)"
      using p by blast
  qed
  have cells: "horizon_cells G mu sigma b n ths h ?r'"
    unfolding horizon_cells_def
    apply (rule exI[of _ g], rule exI[of _ ?p], rule exI[of _ ror], rule exI[of _ dd],
        rule exI[of _ "map last ?p"], rule exI[of _ p10], rule exI[of _ p90])
    using dds by (simp add: sim ror dd lc p10 p90 map_of_store_other map_of_dict_set del: map_map)
  show ?thesis using run cells keep by blast
qed

lemma horizons_loop_cells:
  assumes "cfg_current_bankroll_bb cfg = Some b" and "cfg_n_simulations cfg = Some n"
    and "cfg_drawdown_thresholds cfg = Some ths"
    and "1 \<le> n" and "\<And>h. h \<in> set hs \<Longrightarrow> 0 \<le> h" and "\<not> fl_signbit sigma"
  shows "\<exists>r' g'. horizons_loop G cfg mu sigma hs r g = (Inr r', g')
           \<and> (\<forall>h\<in>set hs. horizon_cells G mu sigma b n ths h r')
           \<and> (\<forall>k. key_horizon k \<notin> Some ` set hs \<longrightarrow> map_of r' k = map_of r k)"
  using assms(5)
proof (induction hs arbitrary: r g)
  case Nil
  then show ?case by simp
next
  case (Cons h hs)
  have "0 \<le> h" using Cons.prems by simp
  from run_horizon_cells[OF assms(1-4) this assms(6), where G = G and mu = mu and r = r and g = g]
  obtain r1 g1 where r1: "run_horizon G cfg mu sigma h r g = (Inr r1, g1)"
    and c1: "horizon_cells G mu sigma b n ths h r1"
    and k1: "\<And>k. key_horizon k \<noteq> Some h \<Longrightarrow> map_of r1 k = map_of r k" by blast
  from Cons.IH[of r1 g1] Cons.prems
  obtain r2 g2 where r2: "horizons_loop G cfg mu sigma hs r1 g1 = (Inr r2, g2)"
    and c2: "\<And>h'. h' \<in> set hs \<Longrightarrow> horizon_cells G mu sigma b n ths h' r2"
    and k2: "\<And>k. key_horizon k \<notin> Some ` set hs \<Longrightarrow> map_of r2 k = map_of r1 k" by auto
  have ch: "horizon_cells G mu sigma b n ths h r2"
  proof (cases "h \<in> set hs")
    case True
    then show ?thesis by (rule c2)
  next
    case False
    show ?thesis
    proof (rule horizon_cells_cong[OF c1])
      fix k assume "key_horizon k = Some h"
      then have "key_horizon k \<notin> Some ` set hs" using False by auto
      then show "map_of r2 k = map_of r1 k" by (rule k2)
    qed
  qed
  have keep: "map_of r2 k = map_of r k" if "key_horizon k \<notin> Some ` set (h # hs)" for k
  proof -
    from that have "key_horizon k \<noteq> Some h" "key_horizon k \<notin> Some ` set hs" by auto
    then show ?thesis using k1 k2 by simp
  qed
  have "horizons_loop G cfg mu sigma (h # hs) r g = (Inr r2, g2)" using r1 r2 by simp
  moreover have "\<forall>h'\<in>set (h # hs). horizon_cells G mu sigma b n ths h' r2"
    using ch c2 by auto
  ultimately show ?case using keep by blast
qed

lemma run_stake_cells:
  assumes "cfg_current_bankroll_bb cfg = Some b" and "cfg_n_simulations cfg = Some n"
    and "cfg_drawdown_thresholds cfg = Some ths" and "cfg_time_horizons cfg = Some hs"
    and "1 \<le> n" and "\<And>h. h \<in> set hs \<Longrightarrow> 0 \<le> h" and "sigma2_bb_per_hand row \<noteq> NegZero"
  shows "\<exists>r' g'. run_stake G cfg row g = (Inr r', g')
           \<and> map_of r' K_stake_text = Some (Str (est_stake_text row))
           \<and> map_of r' K_mu = Some (Num (mu_bb_per_hand row))
           \<and> map_of r' K_sigma = Some (Num (np_sqrt (sigma2_bb_per_hand row)))
           \<and> map_of r' K_sigma2 = Some (Num (sigma2_bb_per_hand row))
           \<and> (\<forall>h\<in>set hs. horizon_cells G (mu_bb_per_hand row) (np_sqrt (sigma2_bb_per_hand row))
                             b n ths h r')"
proof -
  let ?r = "[(K_stake_text, Str (est_stake_text row)), (K_mu, Num (mu_bb_per_hand row)),
             (K_sigma, Num (np_sqrt (sigma2_bb_per_hand row))),
             (K_sigma2, Num (sigma2_bb_per_hand row))]"
  have sb: "\<not> fl_signbit (np_sqrt (sigma2_bb_per_hand row))"
    using assms(7) by (simp add: fl_signbit_np_sqrt)
  from horizons_loop_cells[OF assms(1-3,5,6) sb,
      where G = G and mu = "mu_bb_per_hand row" and r = ?r and g = g]
  obtain r' g' where
    run: "horizons_loop G cfg (mu_bb_per_hand row) (np_sqrt (sigma2_bb_per_hand row)) hs ?r g
            = (Inr r', g')"
    and c: "\<forall>h\<in>set hs. horizon_cells G (mu_bb_per_hand row) (np_sqrt (sigma2_bb_per_hand row))
                           b n ths h r'"
    and k: "\<And>k. key_horizon k \<notin> Some ` set hs \<Longrightarrow> map_of r' k = map_of ?r k" by blast
  have "run_stake G cfg row g = (Inr r', g')"
    using run by (simp add: run_stake_def Let_def assms(4))
  moreover have "map_of r' K_stake_text = Some (Str (est_stake_text row))"
    "map_of r' K_mu = Some (Num (mu_bb_per_hand row))"
    "map_of r' K_sigma = Some (Num (np_sqrt (sigma2_bb_per_hand row)))"
    "map_of r' K_sigma2 = Some (Num (sigma2_bb_per_hand row))"
    using k[of K_stake_text] k[of K_mu] k[of K_sigma] k[of K_sigma2] by auto
  ultimately show ?thesis using c by blast
qed

lemma stakes_loop_cells:
  assumes "cfg_current_bankroll_bb cfg = Some b" and "cfg_n_simulations cfg = Some n"
    and "cfg_drawdown_thresholds cfg = Some ths" and "cfg_time_horizons cfg = Some hs"
    and "1 \<le> n" and "\<And>h. h \<in> set hs \<Longrightarrow> 0 \<le> h"
    and "\<And>e. e \<in> set est \<Longrightarrow> sigma2_bb_per_hand e \<noteq> NegZero"
  shows "\<exists>rows g'. stakes_loop G cfg est acc g = (Inr (acc @ rows), g')
           \<and> list_all2 (\<lambda>e r.
                 map_of r K_stake_text = Some (Str (est_stake_text e))
               \<and> map_of r K_mu = Some (Num (mu_bb_per_hand e))
               \<and> map_of r K_sigma = Some (Num (np_sqrt (sigma2_bb_per_hand e)))
               \<and> map_of r K_sigma2 = Some (Num (sigma2_bb_per_hand e))
               \<and> (\<forall>h\<in>set hs. horizon_cells G (mu_bb_per_hand e)
                                 (np_sqrt (sigma2_bb_per_hand e)) b n ths h r)) est rows"
  using assms(7)
proof (induction est arbitrary: acc g)
  case Nil
  then show ?case by simp
next
  case (Cons row est)
  have "sigma2_bb_per_hand row \<noteq> NegZero" using Cons.prems by simp
  from run_stake_cells[OF assms(1-6) this, where G = G and g = g]
  obtain r1 g1 where r1: "run_stake G cfg row g = (Inr r1, g1)"
    and f: "map_of r1 K_stake_text = Some (Str (est_stake_text row))
       \<and> map_of r1 K_mu = Some (Num (mu_bb_per_hand row))
       \<and> map_of r1 K_sigma = Some (Num (np_sqrt (sigma2_bb_per_hand row)))
       \<and> map_of r1 K_sigma2 = Some (Num (sigma2_bb_per_hand row))
       \<and> (\<forall>h\<in>set hs. horizon_cells G (mu_bb_per_hand row) (np_sqrt (sigma2_bb_per_hand row))
                         b n ths h r1)" by blast
  from Cons.IH[of "acc @ [r1]" g1] Cons.prems
  obtain rows g2 where
    rows: "stakes_loop G cfg est (acc @ [r1]) g1 = (Inr ((acc @ [r1]) @ rows), g2)"
    and m: "list_all2 (\<lambda>e r.
                 map_of r K_stake_text = Some (Str (est_stake_text e))
               \<and> map_of r K_mu = Some (Num (mu_bb_per_hand e))
               \<and> map_of r K_sigma = Some (Num (np_sqrt (sigma2_bb_per_hand e)))
               \<and> map_of r K_sigma2 = Some (Num (sigma2_bb_per_hand e))
               \<and> (\<forall>h\<in>set hs. horizon_cells G (mu_bb_per_hand e)
                                 (np_sqrt (sigma2_bb_per_hand e)) b n ths h r)) est rows"
    by auto
  show ?case
    apply (rule exI[of _ "r1 # rows"], rule exI[of _ g2])
    using r1 rows f m by simp
qed

text \<open>
  Claim C8 states that a stake row whose \<open>mu_bb_per_hand\<close> or \<open>sigma2_bb_per_hand\<close> is \<open>NaN\<close>
  or missing is left out of the output and not simulated. The code has no such filter:
  on a table with a numeric row and a row with a \<open>NaN\<close> mean it simulates both rows and
  returns both. In the second, every simulated bankroll after the initial one is \<open>nan\<close>,
  so the terminal statistics are \<open>nan\<close>, and the risk of ruin and the drawdown
  probability are 0 because no comparison with \<open>nan\<close> holds.
\<close>

theorem nan_stake_is_simulated:
  "fst (run_stake_simulations \<lparr>rng_seed = \<lambda>s. s, rng_gauss = \<lambda>g. (0, Suc g)\<rparr>
          [example_estimate, example_nan_estimate]
          \<lparr>cfg_n_simulations = Some 2, cfg_time_horizons = Some [1],
           cfg_current_bankroll_bb = Some (Fin 100), cfg_drawdown_thresholds = Some [10]\<rparr>
          (0::nat))
   = Inr [[(K_stake_text, Str ''1-2''), (K_mu, Num (Fin (1 / 2))), (K_sigma, Num (Fin 1)),
           (K_sigma2, Num (Fin 1)), (K_ror 1, Num (Fin 0)),
           (K_final_mean 1, Num (Fin (201 / 2))), (K_final_std 1, Num (Fin 0)),
           (K_final_p10 1, Num (Fin (201 / 2))), (K_final_p90 1, Num (Fin (201 / 2))),
           (K_dd 10 1, Num (Fin 0))],
          [(K_stake_text, Str ''2-5''), (K_mu, Num NaN), (K_sigma, Num (Fin 1)),
           (K_sigma2, Num (Fin 1)), (K_ror 1, Num (Fin 0)),
           (K_final_mean 1, Num NaN), (K_final_std 1, Num NaN),
           (K_final_p10 1, Num NaN), (K_final_p90 1, Num NaN),
           (K_dd 10 1, Num (Fin 0))]]"
  by (simp add: run_stake_simulations_def run_stake_def run_horizon_def
      example_estimate_def example_nan_estimate_def
      simulate_bankroll_paths_def np_random_normal_def column_stack_def np_cumsum_def
      calculate_risk_of_ruin_def np_min_axis1_def count_true_def np_true_divide_def
      calculate_drawdown_probabilities_def max_drawdowns_def np_max_axis1_def
      np_maximum_accumulate_def fl_ge_def last_column_def store_drawdowns_def
      np_mean_def np_sum_def np_std_def np_percentile_def Let_def eval_nat_numeral)

text \<open>
  Claim C8, as the code has it. For every configuration with its four keys,
  \<open>n_simulations \<ge> 1\<close> and non-negative horizons, and for every estimates table in which
  no \<open>sigma2_bb_per_hand\<close> is the zero with the sign bit set, \<open>run_stake_simulations\<close>
  returns exactly one row per row of the table, in the order of the table, whether or not
  the row's \<open>mu_bb_per_hand\<close> or \<open>sigma2_bb_per_hand\<close> is \<open>NaN\<close>. The result row carries the
  table row's \<open>stake_text\<close>, its \<open>mu_bb_per_hand\<close>, the square root of its
  \<open>sigma2_bb_per_hand\<close> and the \<open>sigma2_bb_per_hand\<close> itself, and for every horizon of the
  configuration the risk of ruin, the terminal statistics and the drawdown probabilities
  computed from the paths that \<open>simulate_bankroll_paths\<close> returns for these parameters:
  every row is simulated, with the parameters it has, and none is left out.
\<close>

theorem run_stake_simulations_one_row_per_stake:
  assumes "cfg_current_bankroll_bb cfg = Some b" and "cfg_n_simulations cfg = Some n"
    and "cfg_drawdown_thresholds cfg = Some ths" and "cfg_time_horizons cfg = Some hs"
    and "1 \<le> n" and "\<forall>h\<in>set hs. 0 \<le> h"
    and "\<forall>e\<in>set estimates_df. sigma2_bb_per_hand e \<noteq> NegZero"
  shows "\<exists>rows g'. run_stake_simulations G estimates_df cfg g = (Inr rows, g')
     \<and> length rows = length estimates_df
     \<and> (\<forall>i<length estimates_df.
          map_of (rows ! i) K_stake_text = Some (Str (est_stake_text (estimates_df ! i)))
        \<and> map_of (rows ! i) K_mu = Some (Num (mu_bb_per_hand (estimates_df ! i)))
        \<and> map_of (rows ! i) K_sigma =
            Some (Num (np_sqrt (sigma2_bb_per_hand (estimates_df ! i))))
        \<and> map_of (rows ! i) K_sigma2 = Some (Num (sigma2_bb_per_hand (estimates_df ! i)))
        \<and> (\<forall>h\<in>set hs. horizon_cells G (mu_bb_per_hand (estimates_df ! i))
                          (np_sqrt (sigma2_bb_per_hand (estimates_df ! i))) b n ths h
                          (rows ! i)))"
proof -
  have hs: "\<And>h. h \<in> set hs \<Longrightarrow> 0 \<le> h" using assms(6) by simp
  have nz: "\<And>e. e \<in> set estimates_df \<Longrightarrow> sigma2_bb_per_hand e \<noteq> NegZero"
    using assms(7) by simp
  from stakes_loop_cells[OF assms(1-5) hs nz,
      where G = G and est = estimates_df and acc = "[]" and g = g]
  obtain rows g' where r: "stakes_loop G cfg estimates_df [] g = (Inr ([] @ rows), g')"
    and m: "list_all2 (\<lambda>e r.
                 map_of r K_stake_text = Some (Str (est_stake_text e))
               \<and> map_of r K_mu = Some (Num (mu_bb_per_hand e))
               \<and> map_of r K_sigma = Some (Num (np_sqrt (sigma2_bb_per_hand e)))
               \<and> map_of r K_sigma2 = Some (Num (sigma2_bb_per_hand e))
               \<and> (\<forall>h\<in>set hs. horizon_cells G (mu_bb_per_hand e)
                                 (np_sqrt (sigma2_bb_per_hand e)) b n ths h r))
             estimates_df rows"
    by blast
  have len: "length rows = length estimates_df"
    using m by (simp add: list_all2_lengthD)
  have "run_stake_simulations G estimates_df cfg g = (Inr rows, g')"
    using r by (simp add: run_stake_simulations_def)
  then show ?thesis
    using len list_all2_nthD[OF m] by blast
qed

theorem run_stake_simulations_one_row_per_stake_witness:
  "\<exists>rows g'.
        run_stake_simulations \<lparr>rng_seed = \<lambda>s. s, rng_gauss = \<lambda>g. (0, Suc g)\<rparr>
          [example_estimate, example_nan_estimate]
          \<lparr>cfg_n_simulations = Some 2, cfg_time_horizons = Some [1],
           cfg_current_bankroll_bb = Some (Fin 100), cfg_drawdown_thresholds = Some [10]\<rparr>
          (0::nat) = (Inr rows, g')
      \<and> length rows = 2
      \<and> map_of (rows ! 1) K_stake_text = Some (Str ''2-5'')
      \<and> map_of (rows ! 1) K_mu = Some (Num NaN)
      \<and> horizon_cells \<lparr>rng_seed = \<lambda>s. s, rng_gauss = \<lambda>g. (0, Suc g)\<rparr>
          NaN (Fin 1) (Fin 100) 2 [10] 1 (rows ! 1)"
  using run_stake_simulations_one_row_per_stake
    [where cfg = "\<lparr>cfg_n_simulations = Some 2, cfg_time_horizons = Some [1],
           cfg_current_bankroll_bb = Some (Fin 100), cfg_drawdown_thresholds = Some [10]\<rparr>"
       and b = "Fin 100" and n = 2 and ths = "[10]" and hs = "[1]"
       and G = "\<lparr>rng_seed = \<lambda>s. s, rng_gauss = \<lambda>g. (0, Suc g)\<rparr>"
       and estimates_df = "[example_estimate, example_nan_estimate]" and g = "0::nat"]
  by (auto simp add: example_estimate_def example_nan_estimate_def)

text \<open>
  Claim C9 states that a configuration with an absent or out-of-domain field makes
  \<open>run_stake_simulations\<close> fail with a descriptive error before any simulation work. The
  code does not validate the configuration: with the negative drawdown threshold \<open>-5\<close> it
  runs the simulation and returns a result row, whose drawdown probability is 1.
\<close>

theorem negative_threshold_is_accepted:
  "fst (run_stake_simulations \<lparr>rng_seed = \<lambda>s. s, rng_gauss = \<lambda>g. (0, Suc g)\<rparr>
          [example_estimate]
          \<lparr>cfg_n_simulations = Some 1, cfg_time_horizons = Some [1],
           cfg_current_bankroll_bb = Some (Fin 100), cfg_drawdown_thresholds = Some [-5]\<rparr>
          (0::nat))
   = Inr [[(K_stake_text, Str ''1-2''), (K_mu, Num (Fin (1 / 2))), (K_sigma, Num (Fin 1)),
           (K_sigma2, Num (Fin 1)), (K_ror 1, Num (Fin 0)),
           (K_final_mean 1, Num (Fin (201 / 2))), (K_final_std 1, Num (Fin 0)),
           (K_final_p10 1, Num (Fin (201 / 2))), (K_final_p90 1, Num (Fin (201 / 2))),
           (K_dd (-5) 1, Num (Fin 1))]]"
  by (simp add: run_stake_simulations_def run_stake_def run_horizon_def
      example_estimate_def
      simulate_bankroll_paths_def np_random_normal_def column_stack_def np_cumsum_def
      calculate_risk_of_ruin_def np_min_axis1_def count_true_def np_true_divide_def
      calculate_drawdown_probabilities_def max_drawdowns_def np_max_axis1_def
      np_maximum_accumulate_def fl_ge_def last_column_def store_drawdowns_def
      np_mean_def np_sum_def np_std_def np_percentile_def Let_def eval_nat_numeral)

lemma run_horizon_zero_trials:
  assumes "cfg_current_bankroll_bb cfg = Some b" and "cfg_n_simulations cfg = Some 0"
    and "cfg_drawdown_thresholds cfg = Some ths" and "0 \<le> h" and "\<not> fl_signbit sigma"
  shows "run_horizon G cfg mu sigma h r g =
           (Inl IndexError, snd (simulate_bankroll_paths G mu sigma b h 0 g))"
proof -
  have sim: "simulate_bankroll_paths G mu sigma b h 0 g = (Inr [], rng_seed G 42)"
    using assms(4,5)
    by (simp add: simulate_bankroll_paths_def np_random_normal_def column_stack_def)
  have ror: "calculate_risk_of_ruin [] 0 = Inr NaN"
    by (simp add: calculate_risk_of_ruin_def np_min_axis1_def count_true_def np_true_divide_def)
  obtain dd where dd: "calculate_drawdown_probabilities [] ths = Inr dd"
    using calculate_drawdown_probabilities_ok[of "[]" ths] by auto
  have lc: "last_column [] = Inr []" by (simp add: last_column_def)
  have pc: "np_percentile [] 10 = Inl IndexError" by (simp add: np_percentile_def)
  show ?thesis
    unfolding run_horizon_def by (simp add: assms(1-3) sim ror dd lc pc)
qed

lemma run_horizon_no_thresholds:
  assumes "cfg_current_bankroll_bb cfg = Some b" and "cfg_n_simulations cfg = Some n"
    and "cfg_drawdown_thresholds cfg = None" and "0 \<le> n" and "0 \<le> h"
    and "\<not> fl_signbit sigma"
  shows "run_horizon G cfg mu sigma h r g =
           (Inl (KeyError ''drawdown_thresholds''),
            snd (simulate_bankroll_paths G mu sigma b h n g))"
proof -
  let ?a = "fst (draw_rows G mu sigma (nat n) (nat h) (rng_seed G 42))"
  let ?g = "snd (draw_rows G mu sigma (nat n) (nat h) (rng_seed G 42))"
  let ?p = "map (\<lambda>r. b # map (fl_add b) (np_cumsum r)) ?a"
  have sim: "simulate_bankroll_paths G mu sigma b h n g = (Inr ?p, ?g)"
    using assms(4-6) by (intro simulate_bankroll_paths_ok) auto
  have rows: "[] \<notin> set ?p" by auto
  obtain ror where ror: "calculate_risk_of_ruin ?p 0 = Inr ror"
    using calculate_risk_of_ruin_ok[OF rows] by blast
  show ?thesis
    unfolding run_horizon_def by (simp add: assms(1-3) sim ror del: map_map)
qed

lemma run_horizon_value_error:
  assumes "cfg_current_bankroll_bb cfg = Some b" and "cfg_n_simulations cfg = Some n"
    and "n < 0 \<or> h < 0 \<or> fl_signbit sigma"
  shows "run_horizon G cfg mu sigma h r g = (Inl ValueError, rng_seed G 42)"
proof -
  have "simulate_bankroll_paths G mu sigma b h n g = (Inl ValueError, rng_seed G 42)"
    using assms(3) by (intro simulate_bankroll_paths_error) auto
  then show ?thesis
    unfolding run_horizon_def by (simp add: assms(1,2))
qed

lemma first_horizon_fails:
  assumes "cfg_time_horizons cfg = Some (h # hs)"
    and "run_horizon G cfg (mu_bb_per_hand e) (np_sqrt (sigma2_bb_per_hand e)) h
           [(K_stake_text, Str (est_stake_text e)), (K_mu, Num (mu_bb_per_hand e)),
            (K_sigma, Num (np_sqrt (sigma2_bb_per_hand e))),
            (K_sigma2, Num (sigma2_bb_per_hand e))] g = (Inl err, g1)"
  shows "run_stake_simulations G (e # es) cfg g = (Inl err, g1)"
  using assms by (simp add: run_stake_simulations_def run_stake_def Let_def)

text \<open>
  Claim C9, as the code has it. The configuration is read where it is used, and nothing
  checks its values. With an empty estimates table nothing is read and the empty table is
  returned. Otherwise an absent key raises \<^verbatim>\<open>KeyError\<close> when the loops first read it:
  \<^verbatim>\<open>time_horizons\<close> at the first stake, \<^verbatim>\<open>current_bankroll_bb\<close> and \<^verbatim>\<open>n_simulations\<close> at the
  first horizon and before any simulation (the generator state is untouched),
  \<^verbatim>\<open>drawdown_thresholds\<close> only after the first simulation has run (the generator is left
  in the state after that simulation). A negative \<open>n_simulations\<close> or first horizon, or a
  first table row whose \<open>sigma2_bb_per_hand\<close> is the zero with the sign bit set, raises
  NumPy's \<^verbatim>\<open>ValueError\<close> from \<^verbatim>\<open>np.random.normal\<close>, after the generator has been seeded.
  With \<open>n_simulations = 0\<close> the first simulation runs with no trial, the risk of ruin and
  the drawdown probabilities are computed from the empty array, and the run then fails
  with the \<^verbatim>\<open>IndexError\<close> that \<^verbatim>\<open>np.percentile\<close> raises on the empty column of final
  bankrolls. With the four keys present, \<open>n_simulations \<ge> 1\<close>, non-negative horizons and
  no \<open>sigma2_bb_per_hand\<close> that is the zero with the sign bit set, a table with one row
  per stake is returned, whatever the bankroll and the drawdown thresholds are.
\<close>

theorem run_stake_simulations_config_errors:
  "run_stake_simulations G [] cfg g = (Inr [], g)
   \<and> (cfg_time_horizons cfg = None \<longrightarrow>
        run_stake_simulations G (e # es) cfg g = (Inl (KeyError ''time_horizons''), g))
   \<and> (cfg_time_horizons cfg = Some (h # hs) \<and> cfg_current_bankroll_bb cfg = None \<longrightarrow>
        run_stake_simulations G (e # es) cfg g = (Inl (KeyError ''current_bankroll_bb''), g))
   \<and> (cfg_time_horizons cfg = Some (h # hs) \<and> cfg_current_bankroll_bb cfg = Some b
        \<and> cfg_n_simulations cfg = None \<longrightarrow>
        run_stake_simulations G (e # es) cfg g = (Inl (KeyError ''n_simulations''), g))
   \<and> (cfg_time_horizons cfg = Some (h # hs) \<and> cfg_current_bankroll_bb cfg = Some b
        \<and> cfg_n_simulations cfg = Some n
        \<and> (n < 0 \<or> h < 0 \<or> sigma2_bb_per_hand e = NegZero) \<longrightarrow>
        run_stake_simulations G (e # es) cfg g = (Inl ValueError, rng_seed G 42))
   \<and> (cfg_time_horizons cfg = Some (h # hs) \<and> cfg_current_bankroll_bb cfg = Some b
        \<and> cfg_n_simulations cfg = Some n \<and> 0 \<le> n \<and> 0 \<le> h
        \<and> sigma2_bb_per_hand e \<noteq> NegZero
        \<and> cfg_drawdown_thresholds cfg = None \<longrightarrow>
        run_stake_simulations G (e # es) cfg g =
          (Inl (KeyError ''drawdown_thresholds''),
           snd (simulate_bankroll_paths G (mu_bb_per_hand e) (np_sqrt (sigma2_bb_per_hand e))
                  b h n g)))
   \<and> (cfg_time_horizons cfg = Some (h # hs) \<and> cfg_current_bankroll_bb cfg = Some b
        \<and> cfg_n_simulations cfg = Some 0 \<and> 0 \<le> h
        \<and> sigma2_bb_per_hand e \<noteq> NegZero
        \<and> cfg_drawdown_thresholds cfg = Some ths \<longrightarrow>
        run_stake_simulations G (e # es) cfg g =
          (Inl IndexError,
           snd (simulate_bankroll_paths G (mu_bb_per_hand e) (np_sqrt (sigma2_bb_per_hand e))
                  b h 0 g)))
   \<and> (cfg_time_horizons cfg = Some hs' \<and> cfg_current_bankroll_bb cfg = Some b
        \<and> cfg_n_simulations cfg = Some n \<and> 1 \<le> n \<and> (\<forall>h\<in>set hs'. 0 \<le> h)
        \<and> (\<forall>e\<in>set estimates_df. sigma2_bb_per_hand e \<noteq> NegZero)
        \<and> cfg_drawdown_thresholds cfg = Some ths \<longrightarrow>
        (\<exists>rows g'. run_stake_simulations G estimates_df cfg g = (Inr rows, g')
           \<and> length rows = length estimates_df))"
proof (intro conjI impI)
  show "run_stake_simulations G [] cfg g = (Inr [], g)"
    by (simp add: run_stake_simulations_def)
next
  assume "cfg_time_horizons cfg = None"
  then show "run_stake_simulations G (e # es) cfg g = (Inl (KeyError ''time_horizons''), g)"
    by (simp add: run_stake_simulations_def run_stake_def)
next
  assume "cfg_time_horizons cfg = Some (h # hs) \<and> cfg_current_bankroll_bb cfg = None"
  then show "run_stake_simulations G (e # es) cfg g = (Inl (KeyError ''current_bankroll_bb''), g)"
    by (simp add: run_stake_simulations_def run_stake_def run_horizon_def)
next
  assume "cfg_time_horizons cfg = Some (h # hs) \<and> cfg_current_bankroll_bb cfg = Some b
        \<and> cfg_n_simulations cfg = None"
  then show "run_stake_simulations G (e # es) cfg g = (Inl (KeyError ''n_simulations''), g)"
    by (simp add: run_stake_simulations_def run_stake_def run_horizon_def)
next
  assume a: "cfg_time_horizons cfg = Some (h # hs) \<and> cfg_current_bankroll_bb cfg = Some b
        \<and> cfg_n_simulations cfg = Some n
        \<and> (n < 0 \<or> h < 0 \<or> sigma2_bb_per_hand e = NegZero)"
  then have c: "cfg_time_horizons cfg = Some (h # hs)" "cfg_current_bankroll_bb cfg = Some b"
    "cfg_n_simulations cfg = Some n"
    and bad: "n < 0 \<or> h < 0 \<or> fl_signbit (np_sqrt (sigma2_bb_per_hand e))"
    by (auto simp: fl_signbit_np_sqrt)
  show "run_stake_simulations G (e # es) cfg g = (Inl ValueError, rng_seed G 42)"
    by (rule first_horizon_fails[OF c(1) run_horizon_value_error[OF c(2) c(3) bad]])
next
  assume a: "cfg_time_horizons cfg = Some (h # hs) \<and> cfg_current_bankroll_bb cfg = Some b
        \<and> cfg_n_simulations cfg = Some n \<and> 0 \<le> n \<and> 0 \<le> h
        \<and> sigma2_bb_per_hand e \<noteq> NegZero
        \<and> cfg_drawdown_thresholds cfg = None"
  then have c: "cfg_time_horizons cfg = Some (h # hs)" "cfg_current_bankroll_bb cfg = Some b"
    "cfg_n_simulations cfg = Some n" "cfg_drawdown_thresholds cfg = None" "0 \<le> n" "0 \<le> h"
    and sb: "\<not> fl_signbit (np_sqrt (sigma2_bb_per_hand e))"
    by (auto simp: fl_signbit_np_sqrt)
  show "run_stake_simulations G (e # es) cfg g =
          (Inl (KeyError ''drawdown_thresholds''),
           snd (simulate_bankroll_paths G (mu_bb_per_hand e) (np_sqrt (sigma2_bb_per_hand e))
                  b h n g))"
    by (rule first_horizon_fails[OF c(1) run_horizon_no_thresholds[OF c(2) c(3) c(4) c(5) c(6) sb]])
next
  assume a: "cfg_time_horizons cfg = Some (h # hs) \<and> cfg_current_bankroll_bb cfg = Some b
        \<and> cfg_n_simulations cfg = Some 0 \<and> 0 \<le> h
        \<and> sigma2_bb_per_hand e \<noteq> NegZero
        \<and> cfg_drawdown_thresholds cfg = Some ths"
  then have c: "cfg_time_horizons cfg = Some (h # hs)" "cfg_current_bankroll_bb cfg = Some b"
    "cfg_n_simulations cfg = Some 0" "cfg_drawdown_thresholds cfg = Some ths" "0 \<le> h"
    and sb: "\<not> fl_signbit (np_sqrt (sigma2_bb_per_hand e))"
    by (auto simp: fl_signbit_np_sqrt)
  show "run_stake_simulations G (e # es) cfg g =
          (Inl IndexError,
           snd (simulate_bankroll_paths G (mu_bb_per_hand e) (np_sqrt (sigma2_bb_per_hand e))
                  b h 0 g))"
    by (rule first_horizon_fails[OF c(1) run_horizon_zero_trials[OF c(2) c(3) c(4) c(5) sb]])
next
  assume a: "cfg_time_horizons cfg = Some hs' \<and> cfg_current_bankroll_bb cfg = Some b
        \<and> cfg_n_simulations cfg = Some n \<and> 1 \<le> n \<and> (\<forall>h\<in>set hs'. 0 \<le> h)
        \<and> (\<forall>e\<in>set estimates_df. sigma2_bb_per_hand e \<noteq> NegZero)
        \<and> cfg_drawdown_thresholds cfg = Some ths"
  then have c: "cfg_current_bankroll_bb cfg = Some b" "cfg_n_simulations cfg = Some n"
    "cfg_drawdown_thresholds cfg = Some ths" "cfg_time_horizons cfg = Some hs'"
    and n: "1 \<le> n" and hs: "\<And>h. h \<in> set hs' \<Longrightarrow> 0 \<le> h"
    and nz: "\<And>e. e \<in> set estimates_df \<Longrightarrow> sigma2_bb_per_hand e \<noteq> NegZero" by auto
  from stakes_loop_cells[OF c n hs nz,
      where G = G and est = estimates_df and acc = "[]" and g = g]
  obtain rows g' where r: "stakes_loop G cfg estimates_df [] g = (Inr ([] @ rows), g')"
    and m: "list_all2 (\<lambda>e r.
                 map_of r K_stake_text = Some (Str (est_stake_text e))
               \<and> map_of r K_mu = Some (Num (mu_bb_per_hand e))
               \<and> map_of r K_sigma = Some (Num (np_sqrt (sigma2_bb_per_hand e)))
               \<and> map_of r K_sigma2 = Some (Num (sigma2_bb_per_hand e))
               \<and> (\<forall>h\<in>set hs'. horizon_cells G (mu_bb_per_hand e)
                                 (np_sqrt (sigma2_bb_per_hand e)) b n ths h r))
             estimates_df rows"
    by blast
  have "length rows = length estimates_df"
    using m by (simp add: list_all2_lengthD)
  then show "\<exists>rows g'. run_stake_simulations G estimates_df cfg g = (Inr rows, g')
           \<and> length rows = length estimates_df"
    using r by (simp add: run_stake_simulations_def)
qed

theorem run_stake_simulations_config_errors_witness:
  "(\<exists>rows g'.
        run_stake_simulations \<lparr>rng_seed = \<lambda>s. s, rng_gauss = \<lambda>g. (0, Suc g)\<rparr>
          [example_estimate]
          \<lparr>cfg_n_simulations = Some 1, cfg_time_horizons = Some [1],
           cfg_current_bankroll_bb = Some (Fin 100), cfg_drawdown_thresholds = Some [-5]\<rparr>
          (0::nat) = (Inr rows, g')
      \<and> length rows = 1)
   \<and> run_stake_simulations \<lparr>rng_seed = \<lambda>s. s, rng_gauss = \<lambda>g. (0, Suc g)\<rparr>
          [example_estimate]
          \<lparr>cfg_n_simulations = Some 1, cfg_time_horizons = Some [1],
           cfg_current_bankroll_bb = Some (Fin 100), cfg_drawdown_thresholds = None\<rparr>
          (0::nat) = (Inl (KeyError ''drawdown_thresholds''), 43)
   \<and> run_stake_simulations \<lparr>rng_seed = \<lambda>s. s, rng_gauss = \<lambda>g. (0, Suc g)\<rparr>
          [example_estimate]
          \<lparr>cfg_n_simulations = Some 0, cfg_time_horizons = Some [1],
           cfg_current_bankroll_bb = Some (Fin 100), cfg_drawdown_thresholds = Some [-5]\<rparr>
          (0::nat) = (Inl IndexError, 42)"
  using run_stake_simulations_config_errors
    [where cfg = "\<lparr>cfg_n_simulations = Some 1, cfg_time_horizons = Some [1],
           cfg_current_bankroll_bb = Some (Fin 100), cfg_drawdown_thresholds = Some [-5]\<rparr>"
       and b = "Fin 100" and n = 1 and ths = "[-5]" and hs' = "[1]"
       and G = "\<lparr>rng_seed = \<lambda>s. s, rng_gauss = \<lambda>g. (0, Suc g)\<rparr>"
       and estimates_df = "[example_estimate]" and g = "0::nat"]
    run_stake_simulations_config_errors
    [where cfg = "\<lparr>cfg_n_simulations = Some 1, cfg_time_horizons = Some [1],
           cfg_current_bankroll_bb = Some (Fin 100), cfg_drawdown_thresholds = None\<rparr>"
       and b = "Fin 100" and n = 1 and h = 1 and hs = "[]"
       and G = "\<lparr>rng_seed = \<lambda>s. s, rng_gauss = \<lambda>g. (0, Suc g)\<rparr>"
       and e = example_estimate and es = "[]" and g = "0::nat"]
    run_stake_simulations_config_errors
    [where cfg = "\<lparr>cfg_n_simulations = Some 0, cfg_time_horizons = Some [1],
           cfg_current_bankroll_bb = Some (Fin 100), cfg_drawdown_thresholds = Some [-5]\<rparr>"
       and b = "Fin 100" and ths = "[-5]" and h = 1 and hs = "[]"
       and G = "\<lparr>rng_seed = \<lambda>s. s, rng_gauss = \<lambda>g. (0, Suc g)\<rparr>"
       and e = example_estimate and es = "[]" and g = "0::nat"]
  by (auto simp add: example_estimate_def simulate_bankroll_paths_def np_random_normal_def
      eval_nat_numeral)

end
